theory Spec2Isabelle
  imports Main
begin

section \<open>Data model\<close>

text \<open>
  The module \<^verbatim>\<open>Magic/utils.py\<close> orchestrates an external layout tool over a hierarchy of
  circuits.  Python objects live in a store: a circuit or a device is an identity (a number)
  and the store maps it to the object's current attributes, so that \<^verbatim>\<open>d.set_cell(cell)\<close>
  is an update of the store that every holder of the reference sees.
\<close>

type_synonym path = string
type_synonym layer = string
type_synonym cid = nat
type_synonym did = nat

text \<open>Exceptions are values.  \<open>SystemExit n\<close> is what \<^verbatim>\<open>sys.exit(n)\<close> raises;
  \<open>CollaboratorError\<close> stands for a failure raised inside a collaborator whose code is not
  part of this module (the topology sorter, the tool session).\<close>

datatype error =
    FileNotFoundError
  | IsADirectoryError
  | NotADirectoryError
  | AttributeError
  | SystemExit int
  | CollaboratorError string

text \<open>\<^verbatim>\<open>type(device.cell) == Cell\<close> and \<^verbatim>\<open>type(d) is not SubDevice\<close> compare the exact class
  of an object, so every object carries its class.\<close>

datatype cell_type = CellT | MacroCellT

datatype device_type = DeviceT | SubDeviceT

datatype circuit_type = CircuitT | SubCircuitT

text \<open>Modelled from the spec: the class \<^verbatim>\<open>Cell\<close> (\<^verbatim>\<open>Magic/Cell.py\<close>) is not among the
  sources.  The spec describes a cell as a name, a set of layers, provenance path and
  placement state (position, rotation, the positions of the internal child cells).\<close>

record cell =
  cell_name :: string
  cell_type :: cell_type
  layers :: "layer list"
  cell_path :: "path option"
  center :: "int \<times> int"
  rotation :: int
  cells :: "(int \<times> int) list"

record device =
  dev_type :: device_type
  dev_name :: string
  dev_cell :: "cell option"

text \<open>\<open>devices\<close> is the dictionary \<^verbatim>\<open>Circuit.devices\<close> in insertion order;
  \<open>sub_device\<close> is the attribute a \<^verbatim>\<open>SubCircuit\<close> has (its macro device).\<close>

record circuit =
  circ_type :: circuit_type
  devices :: "(string \<times> did) list"
  sub_device :: "did option"

text \<open>A command handed to \<^verbatim>\<open>mag.magic_command\<close>: one string, or the list of lines that
  \<^verbatim>\<open>gen_devices\<close> or \<^verbatim>\<open>place_circuit\<close> of the tool object produced.\<close>

datatype command = Str string | Lines "string list"

text \<open>A method call on the tool object: \<^verbatim>\<open>mag.gen_devices()\<close>,
  \<^verbatim>\<open>mag.place_circuit(name, path="")\<close> or \<^verbatim>\<open>mag.magic_command(c)\<close>.\<close>

datatype call = Gen_devices | Place_circuit string | Magic_command command

text \<open>The state the module acts on: the object store, the file system as the Python
  process and the tool see it (absolute paths; \<open>dirs\<close> the directories, \<open>files\<close> the
  files with their text), the working directory of the process and the one of the tool,
  every method call made on the tool object so far, and the lines printed.\<close>

record state =
  circuits :: "cid \<Rightarrow> circuit"
  devs :: "did \<Rightarrow> device"
  cwd :: path
  dirs :: "path set"
  files :: "path \<rightharpoonup> string"
  tool_cwd :: path
  calls :: "call list"
  stdout :: "string list"

text \<open>The objects alone: what \<^verbatim>\<open>copy.deepcopy\<close> copies, and what the collaborators that
  walk the hierarchy read.\<close>

type_synonym objects = "(cid \<Rightarrow> circuit) \<times> (did \<Rightarrow> device)"

definition store :: "state \<Rightarrow> objects" where
  "store s = (circuits s, devs s)"

text \<open>The collaborators whose code is not part of the module are parameters:
  the topology sorter of \<^verbatim>\<open>SchematicCapture.utils\<close> (which may fail), \<^verbatim>\<open>os.path.realpath\<close>,
  the layers that \<^verbatim>\<open>MagicParser\<close> reads from the text of a file, and the text that
  formatting a circuit in an f-string gives.\<close>

record env =
  get_top_down_topology :: "objects \<Rightarrow> cid \<Rightarrow> error + (int \<times> cid) list"
  get_bottom_up_topology :: "objects \<Rightarrow> cid \<Rightarrow> error + (int \<times> cid) list"
  realpath :: "path \<Rightarrow> path"
  parser_layers :: "string \<Rightarrow> layer list"
  circ_str :: "cid \<Rightarrow> string"

text \<open>The tool object (class \<^verbatim>\<open>Magic\<close>, not among the sources) is a parameter as well:
  the command lines its two generators return for the circuit the tool was set up with, and
  what running a batch of lines does to the files, given the directory the tool is in.  A
  batch may fail.\<close>

record magic =
  gen_devices :: "objects \<Rightarrow> string list"
  place_circuit_lines :: "objects \<Rightarrow> string \<Rightarrow> string list"
  run_lines :: "string list \<Rightarrow> path \<Rightarrow> (path \<rightharpoonup> string) \<Rightarrow> error + (path \<rightharpoonup> string)"

type_synonym result = "(error \<times> state) + state"

section \<open>The operating system and the tool session\<close>

text \<open>\<^verbatim>\<open>os.path.join\<close> of two components (POSIX).\<close>

definition os_path_join :: "path \<Rightarrow> path \<Rightarrow> path" where
  "os_path_join a b =
     (if b \<noteq> [] \<and> hd b = CHR ''/'' then b
      else if a = [] \<or> last a = CHR ''/'' then a @ b
      else a @ ''/'' @ b)"

text \<open>A relative path is resolved against the working directory of the process.  Paths are
  compared as written: no symbolic links and no \<^verbatim>\<open>.\<close> or \<^verbatim>\<open>..\<close> components.\<close>

definition os_path_exists :: "state \<Rightarrow> path \<Rightarrow> bool" where
  "os_path_exists s p =
     (os_path_join (cwd s) p \<in> dirs s \<or> files s (os_path_join (cwd s) p) \<noteq> None)"

definition os_makedirs :: "path \<Rightarrow> state \<Rightarrow> state" where
  "os_makedirs p s = s\<lparr>dirs := insert (os_path_join (cwd s) p) (dirs s)\<rparr>"

definition beneath :: "path \<Rightarrow> path \<Rightarrow> bool" where
  "beneath d p = (p = d \<or> take (length d + 1) p = d @ ''/'')"

text \<open>\<^verbatim>\<open>shutil.rmtree\<close>: the directory and everything beneath it goes; on a plain file
  it raises.\<close>

definition shutil_rmtree :: "path \<Rightarrow> state \<Rightarrow> result" where
  "shutil_rmtree p s =
     (let d = os_path_join (cwd s) p in
      if files s d \<noteq> None then Inl (NotADirectoryError, s)
      else Inr (s\<lparr>dirs := {x \<in> dirs s. \<not> beneath d x},
                  files := (\<lambda>x. if beneath d x then None else files s x)\<rparr>))"

text \<open>\<open>mag_file_in d p\<close>: the path \<open>p\<close> names an entry \<^verbatim>\<open>*.mag\<close> directly in the
  directory \<open>d\<close>.\<close>

definition mag_file_in :: "path \<Rightarrow> path \<Rightarrow> bool" where
  "mag_file_in d p =
     (let n = drop (length d + 1) p in
      take (length d + 1) p = d @ ''/'' \<and> CHR ''/'' \<notin> set n \<and>
      4 \<le> length n \<and> drop (length n - 4) n = ''.mag'')"

text \<open>Modelled from the spec: \<^verbatim>\<open>Magic.magic_command\<close> is not among the sources.  Every
  call is recorded.  The two commands the module writes itself are interpreted as the
  tool's command language reads them: \<^verbatim>\<open>cd\<close> moves the tool to a directory, and the
  \<^verbatim>\<open>foreach\<close> line deletes the files \<^verbatim>\<open>*.mag\<close> of the directory the tool is in ("clearing
  any existing artifact files through the tool session").  Any other input is a batch whose
  effect on the files is the tool's own.\<close>

definition magic_command :: "magic \<Rightarrow> command \<Rightarrow> state \<Rightarrow> result" where
  "magic_command m c s =
     (let s1 = s\<lparr>calls := calls s @ [Magic_command c]\<rparr> in
      case c of
        Str x \<Rightarrow>
          if take 3 x = ''cd '' then Inr (s1\<lparr>tool_cwd := drop 3 x\<rparr>)
          else if x = ''foreach fname [glob *.mag] {file delete $fname}''
          then Inr (s1\<lparr>files := (\<lambda>p. if mag_file_in (tool_cwd s) p then None else files s p)\<rparr>)
          else (case run_lines m [x] (tool_cwd s) (files s) of
                  Inl e \<Rightarrow> Inl (e, s1)
                | Inr f \<Rightarrow> Inr (s1\<lparr>files := f\<rparr>))
      | Lines ls \<Rightarrow>
          (case run_lines m ls (tool_cwd s) (files s) of
             Inl e \<Rightarrow> Inl (e, s1)
           | Inr f \<Rightarrow> Inr (s1\<lparr>files := f\<rparr>)))"

section \<open>Cells\<close>

text \<open>Modelled from the spec: the constructor \<^verbatim>\<open>Cell(name, layers)\<close> and the method
  \<^verbatim>\<open>add_path\<close> of the class \<^verbatim>\<open>Cell\<close>, which is not among the sources.  A new cell has no
  path and sits unrotated at the origin; \<^verbatim>\<open>add_path\<close> rebinds the provenance path "without
  altering its geometry".\<close>

definition Cell :: "string \<Rightarrow> layer list \<Rightarrow> cell" where
  "Cell name ls =
     \<lparr>cell_name = name, cell_type = CellT, layers = ls, cell_path = None,
      center = (0, 0), rotation = 0, cells = []\<rparr>"

definition add_path :: "path \<Rightarrow> cell \<Rightarrow> cell" where
  "add_path p c = c\<lparr>cell_path := Some p\<rparr>"

text \<open>\<^verbatim>\<open>generate_cell(name, path)\<close>: raise when \<^verbatim>\<open>{path}/{name}.mag\<close> does not exist;
  otherwise parse the file, build the cell from the layers and bind it to the resolved path.
  Opening a directory of that name fails in the parser.\<close>

definition generate_cell :: "env \<Rightarrow> string \<Rightarrow> path \<Rightarrow> state \<Rightarrow> error + cell" where
  "generate_cell E name path s =
     (if \<not> os_path_exists s (path @ ''/'' @ name @ ''.mag'') then Inl FileNotFoundError
      else case files s (os_path_join (cwd s) (path @ ''/'' @ name @ ''.mag'')) of
             None \<Rightarrow> Inl IsADirectoryError
           | Some txt \<Rightarrow> Inr (add_path (realpath E path) (Cell name (parser_layers E txt))))"

text \<open>Modelled from the spec: \<^verbatim>\<open>Device.set_cell\<close> is not among the sources; it attaches
  the cell to the device.\<close>

definition set_cell :: "did \<Rightarrow> cell \<Rightarrow> state \<Rightarrow> state" where
  "set_cell d c s = s\<lparr>devs := (devs s)(d := (devs s d)\<lparr>dev_cell := Some c\<rparr>)\<rparr>"

section \<open>Instantiation\<close>

text \<open>The last loop of \<^verbatim>\<open>instantiate_devices\<close>, over \<^verbatim>\<open>Circuit.devices.values()\<close>: a device
  whose cell is not \<^verbatim>\<open>None\<close> and is of class \<^verbatim>\<open>Cell\<close> exactly gets the path added.\<close>

fun update_paths :: "path \<Rightarrow> did list \<Rightarrow> state \<Rightarrow> state" where
  "update_paths p [] s = s"
| "update_paths p (d # ds) s =
     update_paths p ds
       (case dev_cell (devs s d) of
          None \<Rightarrow> s
        | Some c \<Rightarrow>
            if cell_type c = CellT
            then s\<lparr>devs := (devs s)(d := (devs s d)\<lparr>dev_cell := Some (add_path p c)\<rparr>)\<rparr>
            else s)"

text \<open>\<^verbatim>\<open>instantiate_devices(Circuit, mag, path, del_path)\<close>.  \<^verbatim>\<open>mag.gen_devices()\<close> on
  \<^verbatim>\<open>None\<close> raises \<^verbatim>\<open>AttributeError\<close>.\<close>

definition instantiate_devices ::
  "env \<Rightarrow> cid \<Rightarrow> magic option \<Rightarrow> path \<Rightarrow> bool \<Rightarrow> state \<Rightarrow> result" where
  "instantiate_devices E Circ mag path del_path s =
     (case mag of
        None \<Rightarrow> Inl (AttributeError, s)
      | Some m \<Rightarrow>
          let lines = gen_devices m (store s);
              s0 = s\<lparr>calls := calls s @ [Gen_devices]\<rparr>
          in (case (if os_path_exists s0 path \<and> del_path then shutil_rmtree path s0 else Inr s0) of
                Inl e \<Rightarrow> Inl e
              | Inr s1 \<Rightarrow>
                  (let s2 = (if \<not> os_path_exists s1 path then os_makedirs path s1 else s1)
                   in (case magic_command m (Lines lines) s2 of
                         Inl e \<Rightarrow> Inl e
                       | Inr s3 \<Rightarrow>
                           Inr (update_paths (realpath E path)
                                  (map snd (devices (circuits s3 Circ))) s3)))))"

text \<open>The loop of \<^verbatim>\<open>instantiate_circuit\<close> over the sorted topology.\<close>

fun instantiate_layers ::
  "env \<Rightarrow> magic option \<Rightarrow> path \<Rightarrow> (int \<times> cid) list \<Rightarrow> state \<Rightarrow> result" where
  "instantiate_layers E mag path [] s = Inr s"
| "instantiate_layers E mag path ((t, c) # rest) s =
     (case instantiate_devices E c mag path False
             (s\<lparr>stdout := stdout s @ [''Diagnostic:  instantiating devices.'']\<rparr>) of
        Inl e \<Rightarrow> Inl e
      | Inr s' \<Rightarrow> instantiate_layers E mag path rest s')"

text \<open>The two commands that move the tool to the directory and clear its \<^verbatim>\<open>.mag\<close> files;
  \<^verbatim>\<open>if mag:\<close> skips them for \<^verbatim>\<open>None\<close>.\<close>

definition clear_mag_files :: "magic option \<Rightarrow> path \<Rightarrow> state \<Rightarrow> result" where
  "clear_mag_files mag abspath s =
     (case mag of
        None \<Rightarrow> Inr s
      | Some m \<Rightarrow>
          (case magic_command m (Str (''cd '' @ abspath)) s of
             Inl e \<Rightarrow> Inl e
           | Inr s' \<Rightarrow>
               magic_command m (Str ''foreach fname [glob *.mag] {file delete $fname}'') s'))"

text \<open>\<^verbatim>\<open>instantiate_circuit(Circuit, mag, path)\<close>.  \<^verbatim>\<open>topology.sort(key=lambda x: x[0])\<close> is a
  stable ascending sort.\<close>

definition instantiate_circuit :: "env \<Rightarrow> cid \<Rightarrow> magic option \<Rightarrow> path \<Rightarrow> state \<Rightarrow> result" where
  "instantiate_circuit E Circ mag path s =
     (case get_top_down_topology E (store s) Circ of
        Inl e \<Rightarrow> Inl (e, s)
      | Inr topo \<Rightarrow>
          let topology = sort_key fst topo;
              s1 = (if \<not> os_path_exists s path then os_makedirs path s else s);
              cwdpath = cwd s1;
              abspath = os_path_join cwdpath path
          in (case clear_mag_files mag abspath s1 of
                Inl e \<Rightarrow> Inl e
              | Inr s2 \<Rightarrow> instantiate_layers E mag path topology s2))"

section \<open>Binding cells\<close>

text \<open>The inner loop of \<^verbatim>\<open>add_cells\<close>, over \<^verbatim>\<open>c.devices.items()\<close>, and the outer one over
  the topology.  An exception leaves the loops with the devices bound so far.\<close>

fun add_cells_devices :: "env \<Rightarrow> path \<Rightarrow> (string \<times> did) list \<Rightarrow> state \<Rightarrow> result" where
  "add_cells_devices E path [] s = Inr s"
| "add_cells_devices E path ((d_name, d) # rest) s =
     (if dev_type (devs s d) \<noteq> SubDeviceT then
        (case generate_cell E d_name path s of
           Inl e \<Rightarrow> Inl (e, s)
         | Inr c \<Rightarrow> add_cells_devices E path rest (set_cell d c s))
      else add_cells_devices E path rest s)"

fun add_cells_layers :: "env \<Rightarrow> path \<Rightarrow> (int \<times> cid) list \<Rightarrow> state \<Rightarrow> result" where
  "add_cells_layers E path [] s = Inr s"
| "add_cells_layers E path ((t, c) # rest) s =
     (case add_cells_devices E path (devices (circuits s c)) s of
        Inl e \<Rightarrow> Inl e
      | Inr s' \<Rightarrow> add_cells_layers E path rest s')"

text \<open>The body of the \<^verbatim>\<open>try\<close> statement of \<^verbatim>\<open>add_cells\<close>.\<close>

definition add_cells_try :: "env \<Rightarrow> cid \<Rightarrow> path \<Rightarrow> state \<Rightarrow> result" where
  "add_cells_try E circ path s =
     (case get_top_down_topology E (store s) circ of
        Inl e \<Rightarrow> Inl (e, s)
      | Inr topo \<Rightarrow> add_cells_layers E path (sort_key fst topo) s)"

text \<open>What the handler of \<^verbatim>\<open>FileNotFoundError\<close> and the bare \<^verbatim>\<open>except\<close> print.\<close>

definition not_found_lines :: "path \<Rightarrow> string list" where
  "not_found_lines path =
     [''Magic-view can't be found!'',
      ''Generating new view under '' @ [CHR 0x27] @ path @ [CHR 0x27] @ ''!'']"

definition failed_line :: "env \<Rightarrow> cid \<Rightarrow> string" where
  "failed_line E circ = ''Adding cells to '' @ circ_str E circ @ '' failed!''"

text \<open>\<^verbatim>\<open>add_cells(circ, mag, path)\<close>.  The handler of \<^verbatim>\<open>FileNotFoundError\<close> prints two
  lines, instantiates the circuit and calls \<^verbatim>\<open>add_cells\<close> again; an exception raised in
  the handler propagates.  The bare \<^verbatim>\<open>except\<close> prints and exits with status 1.  The
  function need not return: \<open>None\<close> is a run that never ends.\<close>

partial_function (option) add_cells ::
  "env \<Rightarrow> cid \<Rightarrow> magic option \<Rightarrow> path \<Rightarrow> state \<Rightarrow> result option" where
  "add_cells E circ mag path s =
     (case add_cells_try E circ path s of
        Inr s' \<Rightarrow> Some (Inr s')
      | Inl (e, s') \<Rightarrow>
          if e = FileNotFoundError then
            (case instantiate_circuit E circ mag path
                    (s'\<lparr>stdout := stdout s' @ not_found_lines path\<rparr>) of
               Inl err \<Rightarrow> Some (Inl err)
             | Inr s'' \<Rightarrow> add_cells E circ mag path s'')
          else Some (Inl (SystemExit 1, s'\<lparr>stdout := stdout s' @ [failed_line E circ]\<rparr>)))"

section \<open>Placement\<close>

text \<open>\<^verbatim>\<open>place_circuit(name, Circuit, mag, path, debug, clean_path)\<close>.  The circuit is given
  as a reference into a store of objects; the function does not read it, nor \<^verbatim>\<open>debug\<close>,
  nor \<^verbatim>\<open>clean_path\<close>.\<close>

definition place_circuit ::
  "string \<Rightarrow> objects \<times> cid \<Rightarrow> magic option \<Rightarrow> path \<Rightarrow> bool \<Rightarrow> bool \<Rightarrow> state \<Rightarrow> result" where
  "place_circuit name Circ mag path debug clean_path s =
     (case mag of
        None \<Rightarrow> Inl (AttributeError, s)
      | Some m \<Rightarrow>
          let lines = place_circuit_lines m (store s) name;
              s0 = s\<lparr>calls := calls s @ [Place_circuit name]\<rparr>;
              s1 = (if \<not> os_path_exists s0 path then os_makedirs path s0 else s0);
              cwdpath = cwd s1;
              abspath = os_path_join cwdpath path
          in (case clear_mag_files mag abspath s1 of
                Inl e \<Rightarrow> Inl e
              | Inr s2 \<Rightarrow> magic_command m (Lines lines) s2))"

text \<open>Modelled from the spec: the placement methods \<^verbatim>\<open>move_center\<close>, \<^verbatim>\<open>rotate_center\<close>
  and \<^verbatim>\<open>_move_cells_to_bound\<close> of the cell classes are not among the sources.  The spec
  names them: translate the cell so that its center is at the given point; rotate it about
  its center by the given angle; shift the internal child cells so that the bounding box of
  the block is aligned at the origin.  Cells are placed at multiples of 90 degrees, and the
  model turns the child positions by whole quarter turns.\<close>

definition move_center :: "int \<times> int \<Rightarrow> cell \<Rightarrow> cell" where
  "move_center t c =
     c\<lparr>center := t,
       cells := map (\<lambda>(x, y). (x + (fst t - fst (center c)), y + (snd t - snd (center c))))
                  (cells c)\<rparr>"

definition rotate_about :: "int \<times> int \<Rightarrow> int \<Rightarrow> int \<times> int \<Rightarrow> int \<times> int" where
  "rotate_about m a p =
     (let x = fst p - fst m; y = snd p - snd m; k = (a div 90) mod 4 in
      if k = 0 then p
      else if k = 1 then (fst m - y, snd m + x)
      else if k = 2 then (fst m - x, snd m - y)
      else (fst m + y, snd m - x))"

definition rotate_center :: "int \<Rightarrow> cell \<Rightarrow> cell" where
  "rotate_center a c =
     c\<lparr>rotation := rotation c + a, cells := map (rotate_about (center c) a) (cells c)\<rparr>"

definition move_cells_to_bound :: "cell \<Rightarrow> cell" where
  "move_cells_to_bound c =
     (case cells c of
        [] \<Rightarrow> c
      | p # ps \<Rightarrow>
          c\<lparr>cells := map (\<lambda>(x, y). (x - fold min (map fst ps) (fst p),
                                     y - fold min (map snd ps) (snd p)))
                         (cells c)\<rparr>)"

text \<open>The three calls that \<^verbatim>\<open>place_circuit_hierachical\<close> makes on a macro cell, as one
  function of the cell.\<close>

definition normalize :: "cell \<Rightarrow> cell" where
  "normalize c =
     (let c1 = move_center (0, 0) c;
          c2 = rotate_center (- rotation c1) c1
      in move_cells_to_bound c2)"

text \<open>Modelled from the spec: a block is normalized when its center is at the origin, its
  rotation is undone and its bounds are aligned, that is, the bounding box of its child
  cells starts at the origin.\<close>

definition bounds_aligned :: "cell \<Rightarrow> bool" where
  "bounds_aligned c =
     (case cells c of
        [] \<Rightarrow> True
      | p # ps \<Rightarrow> fold min (map fst ps) (fst p) = 0 \<and> fold min (map snd ps) (snd p) = 0)"

definition normalized :: "cell \<Rightarrow> bool" where
  "normalized c = (center c = (0, 0) \<and> rotation c = 0 \<and> bounds_aligned c)"

text \<open>\<^verbatim>\<open>copy.deepcopy(circ)\<close> gives a reference to the copy of the circuit in an independent
  copy of the objects.\<close>

definition deepcopy :: "state \<Rightarrow> cid \<Rightarrow> objects \<times> cid" where
  "deepcopy s circ = (store s, circ)"

text \<open>The first lines of the \<^verbatim>\<open>SubCircuit\<close> branch of \<^verbatim>\<open>place_circuit_hierachical\<close>: the
  copy, its macro device and the three calls on the macro cell of the copy.  The result is
  the copy and its macro device.  An attribute of \<^verbatim>\<open>None\<close> raises.\<close>

definition normalized_copy :: "state \<Rightarrow> cid \<Rightarrow> error + (objects \<times> cid) \<times> did" where
  "normalized_copy s circ =
     (let circ_c = deepcopy s circ;
          cs = fst (fst circ_c);
          ds = snd (fst circ_c)
      in (case sub_device (cs (snd circ_c)) of
            None \<Rightarrow> Inl AttributeError
          | Some sd \<Rightarrow>
              (case dev_cell (ds sd) of
                 None \<Rightarrow> Inl AttributeError
               | Some macro_cell \<Rightarrow>
                   (let c1 = move_center (0, 0) macro_cell;
                        c2 = rotate_center (- rotation c1) c1;
                        c3 = move_cells_to_bound c2
                    in Inr (((cs, ds(sd := (ds sd)\<lparr>dev_cell := Some c3\<rparr>)), snd circ_c), sd)))))"

text \<open>\<^verbatim>\<open>circ.sub_device.cell.add_path(os.path.realpath(path))\<close> on the original circuit.\<close>

definition rebind_macro_path :: "env \<Rightarrow> path \<Rightarrow> cid \<Rightarrow> state \<Rightarrow> result" where
  "rebind_macro_path E path circ s =
     (case sub_device (circuits s circ) of
        None \<Rightarrow> Inl (AttributeError, s)
      | Some d \<Rightarrow>
          (case dev_cell (devs s d) of
             None \<Rightarrow> Inl (AttributeError, s)
           | Some c \<Rightarrow>
               Inr (s\<lparr>devs := (devs s)(d := (devs s d)\<lparr>dev_cell := Some (add_path (realpath E path) c)\<rparr>)\<rparr>)))"

text \<open>One iteration of the loop of \<^verbatim>\<open>place_circuit_hierachical\<close>.\<close>

definition place_entry ::
  "env \<Rightarrow> string \<Rightarrow> magic option \<Rightarrow> path \<Rightarrow> int \<times> cid \<Rightarrow> state \<Rightarrow> result" where
  "place_entry E name mag path entry s =
     (let circ = snd entry in
      if circ_type (circuits s circ) = SubCircuitT then
        (case normalized_copy s circ of
           Inl e \<Rightarrow> Inl (e, s)
         | Inr (circ_c, sd) \<Rightarrow>
             (case place_circuit (dev_name (snd (fst circ_c) sd)) circ_c mag path False False s of
                Inl e \<Rightarrow> Inl e
              | Inr s' \<Rightarrow> rebind_macro_path E path circ s'))
      else place_circuit name (store s, circ) mag path False False s)"

fun place_entries ::
  "env \<Rightarrow> string \<Rightarrow> magic option \<Rightarrow> path \<Rightarrow> (int \<times> cid) list \<Rightarrow> state \<Rightarrow> result" where
  "place_entries E name mag path [] s = Inr s"
| "place_entries E name mag path (entry # rest) s =
     (case place_entry E name mag path entry s of
        Inl e \<Rightarrow> Inl e
      | Inr s' \<Rightarrow> place_entries E name mag path rest s')"

text \<open>\<^verbatim>\<open>place_circuit_hierachical(name, circuit, mag, path, clean_path)\<close>.
  \<^verbatim>\<open>topology.sort(key=lambda x : x[0], reverse=True)\<close> is a stable descending sort.\<close>

definition place_circuit_hierachical ::
  "env \<Rightarrow> string \<Rightarrow> cid \<Rightarrow> magic option \<Rightarrow> path \<Rightarrow> bool \<Rightarrow> state \<Rightarrow> result" where
  "place_circuit_hierachical E name circuit mag path clean_path s =
     (case (if os_path_exists s path \<and> clean_path then shutil_rmtree path s else Inr s) of
        Inl e \<Rightarrow> Inl e
      | Inr s1 \<Rightarrow>
          (let s2 = (if \<not> os_path_exists s1 path then os_makedirs path s1 else s1)
           in (case get_bottom_up_topology E (store s2) circuit of
                 Inl e \<Rightarrow> Inl (e, s2)
               | Inr topology \<Rightarrow>
                   place_entries E name mag path (sort_key (\<lambda>x. - fst x) topology) s2)))"

text \<open>The name under which an entry of the topology is placed (the name of the macro
  device for a \<^verbatim>\<open>SubCircuit\<close>, the name of the top cell otherwise), and the names of the
  placements the tool was asked for, in the order of the calls.\<close>

definition entry_name :: "state \<Rightarrow> string \<Rightarrow> cid \<Rightarrow> string" where
  "entry_name s name circ =
     (if circ_type (circuits s circ) = SubCircuitT then
        (case sub_device (circuits s circ) of
           None \<Rightarrow> name
         | Some d \<Rightarrow> dev_name (devs s d))
      else name)"

fun placed_names :: "call list \<Rightarrow> string list" where
  "placed_names [] = []"
| "placed_names (Place_circuit n # cs) = n # placed_names cs"
| "placed_names (c # cs) = placed_names cs"

section \<open>An example hierarchy\<close>

text \<open>Modelled from the spec: \<^verbatim>\<open>get_bottom_up_topology\<close> is not among the sources.  The
  spec gives the bottom-up layering of a hierarchy: a circuit without composite children is
  at layer 0, and a composite is one layer above the highest of its children.\<close>

datatype hierarchy = Hier cid "hierarchy list"

fun bottom_up_layer :: "hierarchy \<Rightarrow> nat" where
  "bottom_up_layer (Hier c hs) =
     (case hs of [] \<Rightarrow> 0 | _ \<Rightarrow> Suc (fold max (map bottom_up_layer hs) 0))"

fun bottom_up_topology :: "hierarchy \<Rightarrow> (int \<times> cid) list" where
  "bottom_up_topology (Hier c hs) =
     concat (map bottom_up_topology hs) @ [(int (bottom_up_layer (Hier c hs)), c)]"

text \<open>The root circuit 0 holds the primitive device \<^verbatim>\<open>M1\<close> (device 1) and the macro device
  \<^verbatim>\<open>X1\<close> (device 2) of the sub-circuit 1, which holds the primitive device \<^verbatim>\<open>M2\<close>
  (device 3).  The macro device owns a macro cell with a stale path.\<close>

definition ex_macro_cell :: cell where
  "ex_macro_cell =
     \<lparr>cell_name = ''X1'', cell_type = MacroCellT, layers = [], cell_path = Some ''old'',
      center = (5, 5), rotation = 90, cells = [(5, 7)]\<rparr>"

definition ex_state :: state where
  "ex_state =
     \<lparr>circuits = (\<lambda>c. if c = 0 then
                        \<lparr>circ_type = CircuitT, devices = [(''M1'', 1), (''X1'', 2)],
                         sub_device = None\<rparr>
                      else \<lparr>circ_type = SubCircuitT, devices = [(''M2'', 3)],
                            sub_device = Some 2\<rparr>),
      devs = (\<lambda>d. if d = 2 then
                    \<lparr>dev_type = SubDeviceT, dev_name = ''X1'', dev_cell = Some ex_macro_cell\<rparr>
                  else \<lparr>dev_type = DeviceT, dev_name = (if d = 1 then ''M1'' else ''M2''),
                        dev_cell = None\<rparr>),
      cwd = ''/w'', dirs = {}, files = Map.empty, tool_cwd = ''/'', calls = [], stdout = []\<rparr>"

text \<open>The same objects with the device files in place.\<close>

definition ex_generated :: state where
  "ex_generated =
     ex_state\<lparr>dirs := {''/w/Dev''},
              files := [''/w/Dev/M1.mag'' \<mapsto> ''m1'', ''/w/Dev/M2.mag'' \<mapsto> ''m2'']\<rparr>"

definition ex_env :: env where
  "ex_env =
     \<lparr>get_top_down_topology = (\<lambda>ob c. Inr [(1, 1), (0, 0)]),
      get_bottom_up_topology = (\<lambda>ob c. Inr (bottom_up_topology (Hier 0 [Hier 1 []]))),
      realpath = (\<lambda>p. ''/w/'' @ p),
      parser_layers = (\<lambda>txt. [txt]),
      circ_str = (\<lambda>c. ''top'')\<rparr>"

text \<open>A tool whose device batch writes the two device files into the directory it is in,
  and whose placement batch writes the file of the placed cell.\<close>

definition ex_mag :: magic where
  "ex_mag =
     \<lparr>gen_devices = (\<lambda>ob. [''gen'']),
      place_circuit_lines = (\<lambda>ob n. [n]),
      run_lines = (\<lambda>ls d f.
         if ls = [''gen''] then Inr (f(d @ ''/M1.mag'' \<mapsto> ''m1'', d @ ''/M2.mag'' \<mapsto> ''m2''))
         else Inr (f(d @ ''/'' @ concat ls @ ''.mag'' \<mapsto> ''placed'')))\<rparr>"

text \<open>A tool that needs three device batches before it writes the device files: it counts
  the batches in a file of its own.\<close>

definition slow_mag :: magic where
  "slow_mag =
     \<lparr>gen_devices = (\<lambda>ob. [''gen'']),
      place_circuit_lines = (\<lambda>ob n. [n]),
      run_lines = (\<lambda>ls d f.
         if f (d @ ''/count'') = None then Inr (f(d @ ''/count'' \<mapsto> ''1''))
         else if f (d @ ''/count'') = Some ''1'' then Inr (f(d @ ''/count'' \<mapsto> ''2''))
         else Inr (f(d @ ''/M1.mag'' \<mapsto> ''m1'', d @ ''/M2.mag'' \<mapsto> ''m2'')))\<rparr>"

text \<open>A tool whose batches write no file at all.\<close>

definition idle_mag :: magic where
  "idle_mag =
     \<lparr>gen_devices = (\<lambda>ob. [''gen'']),
      place_circuit_lines = (\<lambda>ob n. [n]),
      run_lines = (\<lambda>ls d f. Inr f)\<rparr>"

text \<open>A tool whose session fails on every batch.\<close>

definition broken_mag :: magic where
  "broken_mag =
     \<lparr>gen_devices = (\<lambda>ob. [''gen'']),
      place_circuit_lines = (\<lambda>ob n. [n]),
      run_lines = (\<lambda>ls d f. Inl (CollaboratorError ''BrokenPipeError''))\<rparr>"

text \<open>The states of the example in which the file of \<^verbatim>\<open>M1\<close> is missing from the device
  directory.\<close>

definition ex_missing :: "state \<Rightarrow> bool" where
  "ex_missing s =
     (circuits s = circuits ex_state \<and> devs s = devs ex_state \<and> cwd s = ''/w''
      \<and> dirs s \<subseteq> {''/w/Dev''} \<and> files s ''/w/Dev'' = None
      \<and> files s ''/w/Dev/M1.mag'' = None)"

section \<open>Properties\<close>

subsection \<open>Frame lemmas of the primitives\<close>

lemma magic_command_Inr:
  assumes "magic_command m c s = Inr s'"
  shows "circuits s' = circuits s" "devs s' = devs s" "cwd s' = cwd s" "dirs s' = dirs s"
    "stdout s' = stdout s" "calls s' = calls s @ [Magic_command c]"
  using assms
  by (auto simp: magic_command_def Let_def split: command.splits if_splits sum.splits)

lemma magic_command_Inl:
  assumes "magic_command m c s = Inl (e, s')"
  shows "s' = s\<lparr>calls := calls s @ [Magic_command c]\<rparr>"
  using assms
  by (auto simp: magic_command_def Let_def split: command.splits if_splits sum.splits)

lemma shutil_rmtree_Inr:
  assumes "shutil_rmtree p s = Inr s'"
  shows "circuits s' = circuits s" "devs s' = devs s" "cwd s' = cwd s"
    "stdout s' = stdout s" "calls s' = calls s" "tool_cwd s' = tool_cwd s"
  using assms
  by (auto simp: shutil_rmtree_def Let_def split: if_splits)

lemma update_paths_frame:
  "circuits (update_paths p ds s) = circuits s"
  "cwd (update_paths p ds s) = cwd s"
  "dirs (update_paths p ds s) = dirs s"
  "files (update_paths p ds s) = files s"
  "tool_cwd (update_paths p ds s) = tool_cwd s"
  "calls (update_paths p ds s) = calls s"
  "stdout (update_paths p ds s) = stdout s"
  by (induction ds arbitrary: s; simp split: option.splits)+

lemma update_paths_devs:
  "devs (update_paths p ds s) d =
     (if d \<in> set ds then
        (case dev_cell (devs s d) of
           None \<Rightarrow> devs s d
         | Some c \<Rightarrow> if cell_type c = CellT
                     then (devs s d)\<lparr>dev_cell := Some (add_path p c)\<rparr> else devs s d)
      else devs s d)"
proof (induction ds arbitrary: s)
  case Nil
  show ?case by simp
next
  case (Cons a ds)
  show ?case
    by (simp add: Cons.IH add_path_def split: option.splits)
qed

lemma magic_command_Lines_Inr:
  assumes "magic_command m (Lines ls) s = Inr s'"
  shows "run_lines m ls (tool_cwd s) (files s) = Inr (files s')" "tool_cwd s' = tool_cwd s"
  using assms by (auto simp: magic_command_def Let_def split: sum.splits)

lemma instantiate_devices_InrE:
  assumes "instantiate_devices E Circ mag path del_path s = Inr s'"
  obtains m where "mag = Some m"
    and "calls s' = calls s @ [Gen_devices, Magic_command (Lines (gen_devices m (store s)))]"
    and "circuits s' = circuits s"
    and "\<And>d. devs s' d =
            (if d \<in> snd ` set (devices (circuits s Circ)) then
               (case dev_cell (devs s d) of
                  None \<Rightarrow> devs s d
                | Some c \<Rightarrow>
                    if cell_type c = CellT
                    then (devs s d)\<lparr>dev_cell := Some (c\<lparr>cell_path := Some (realpath E path)\<rparr>)\<rparr>
                    else devs s d)
             else devs s d)"
    and "cwd s' = cwd s" and "stdout s' = stdout s" and "tool_cwd s' = tool_cwd s"
    and "\<not> del_path \<Longrightarrow> run_lines m (gen_devices m (store s)) (tool_cwd s) (files s) = Inr (files s')"
    and "\<not> del_path \<Longrightarrow> dirs s \<subseteq> dirs s'"
proof -
  from assms obtain m s1 s3 where m: "mag = Some m" and
    s1: "(if os_path_exists (s\<lparr>calls := calls s @ [Gen_devices]\<rparr>) path \<and> del_path
          then shutil_rmtree path (s\<lparr>calls := calls s @ [Gen_devices]\<rparr>)
          else Inr (s\<lparr>calls := calls s @ [Gen_devices]\<rparr>)) = Inr s1" and
    s3: "magic_command m (Lines (gen_devices m (store s)))
           (if \<not> os_path_exists s1 path then os_makedirs path s1 else s1) = Inr s3" and
    s': "s' = update_paths (realpath E path) (map snd (devices (circuits s3 Circ))) s3"
    by (auto simp: instantiate_devices_def Let_def split: option.splits sum.splits)
  have f1: "circuits s1 = circuits s" "devs s1 = devs s" "calls s1 = calls s @ [Gen_devices]"
    "cwd s1 = cwd s" "stdout s1 = stdout s" "tool_cwd s1 = tool_cwd s"
    using s1 by (auto simp: shutil_rmtree_Inr split: if_splits)
  have f1': "\<not> del_path \<Longrightarrow> files s1 = files s \<and> dirs s1 = dirs s"
    using s1 by (auto split: if_splits)
  have f3: "circuits s3 = circuits s" "devs s3 = devs s"
    "calls s3 = calls s @ [Gen_devices, Magic_command (Lines (gen_devices m (store s)))]"
    "cwd s3 = cwd s" "stdout s3 = stdout s" "tool_cwd s3 = tool_cwd s"
    using magic_command_Inr [OF s3] magic_command_Lines_Inr [OF s3] f1
    by (auto simp: os_makedirs_def)
  have f3': "\<not> del_path \<Longrightarrow>
       run_lines m (gen_devices m (store s)) (tool_cwd s) (files s) = Inr (files s3)
       \<and> dirs s \<subseteq> dirs s3"
    using magic_command_Inr [OF s3] magic_command_Lines_Inr [OF s3] f1 f1'
    by (auto simp: os_makedirs_def split: if_splits)
  show ?thesis
  proof (rule that [of m])
    show "mag = Some m" by (rule m)
    show "calls s' = calls s @ [Gen_devices, Magic_command (Lines (gen_devices m (store s)))]"
      using f3 by (simp add: s' update_paths_frame)
    show "circuits s' = circuits s" using f3 by (simp add: s' update_paths_frame)
    show "cwd s' = cwd s" using f3 by (simp add: s' update_paths_frame)
    show "stdout s' = stdout s" using f3 by (simp add: s' update_paths_frame)
    show "tool_cwd s' = tool_cwd s" using f3 by (simp add: s' update_paths_frame)
    show "\<not> del_path \<Longrightarrow>
       run_lines m (gen_devices m (store s)) (tool_cwd s) (files s) = Inr (files s')"
      using f3' by (simp add: s' update_paths_frame)
    show "\<not> del_path \<Longrightarrow> dirs s \<subseteq> dirs s'"
      using f3' by (simp add: s' update_paths_frame)
    show "\<And>d. devs s' d =
            (if d \<in> snd ` set (devices (circuits s Circ)) then
               (case dev_cell (devs s d) of
                  None \<Rightarrow> devs s d
                | Some c \<Rightarrow>
                    if cell_type c = CellT
                    then (devs s d)\<lparr>dev_cell := Some (c\<lparr>cell_path := Some (realpath E path)\<rparr>)\<rparr>
                    else devs s d)
             else devs s d)"
      using f3
      by (auto simp: s' update_paths_frame update_paths_devs add_path_def split: option.splits)
  qed
qed

lemma instantiate_devices_Inr:
  assumes "instantiate_devices E Circ mag path del_path s = Inr s'"
  shows "\<exists>m. mag = Some m
    \<and> calls s' = calls s @ [Gen_devices, Magic_command (Lines (gen_devices m (store s)))]
    \<and> circuits s' = circuits s
    \<and> (\<forall>d. devs s' d =
            (if d \<in> snd ` set (devices (circuits s Circ)) then
               (case dev_cell (devs s d) of
                  None \<Rightarrow> devs s d
                | Some c \<Rightarrow>
                    if cell_type c = CellT
                    then (devs s d)\<lparr>dev_cell := Some (c\<lparr>cell_path := Some (realpath E path)\<rparr>)\<rparr>
                    else devs s d)
             else devs s d))
    \<and> cwd s' = cwd s \<and> stdout s' = stdout s \<and> tool_cwd s' = tool_cwd s
    \<and> (\<not> del_path \<longrightarrow>
          run_lines m (gen_devices m (store s)) (tool_cwd s) (files s) = Inr (files s')
          \<and> dirs s \<subseteq> dirs s')"
  by (rule instantiate_devices_InrE [OF assms]) blast

lemma store_update [simp]:
  "store (s\<lparr>stdout := a\<rparr>) = store s"
  "store (s\<lparr>calls := b\<rparr>) = store s"
  "store (s\<lparr>files := c\<rparr>) = store s"
  "store (s\<lparr>dirs := d\<rparr>) = store s"
  "store (s\<lparr>tool_cwd := e\<rparr>) = store s"
  by (simp_all add: store_def)

lemma instantiate_devices_calls:
  assumes "instantiate_devices E Circ mag path del_path s = Inr s'"
  shows "\<exists>m. mag = Some m
    \<and> calls s' = calls s @ [Gen_devices, Magic_command (Lines (gen_devices m (store s)))]"
  using instantiate_devices_Inr [OF assms] by blast

lemma instantiate_devices_keeps_files:
  assumes "instantiate_devices E Circ (Some m) path False s = Inr s'"
  shows "run_lines m (gen_devices m (store s)) (tool_cwd s) (files s) = Inr (files s')
         \<and> dirs s \<subseteq> dirs s'"
  using instantiate_devices_Inr [OF assms] by blast

lemma clear_mag_files_Some:
  "clear_mag_files (Some m) d s =
     Inr (s\<lparr>calls := calls s @ [Magic_command (Str (''cd '' @ d)),
                Magic_command (Str ''foreach fname [glob *.mag] {file delete $fname}'')],
            tool_cwd := d,
            files := (\<lambda>p. if mag_file_in d p then None else files s p)\<rparr>)"
  by (simp add: clear_mag_files_def magic_command_def Let_def cong del: if_weak_cong)

lemma instantiate_layers_calls:
  "instantiate_layers E mag path topo s = Inr s' \<Longrightarrow>
     \<exists>bs. length bs = length topo \<and>
          calls s' = calls s @ concat (map (\<lambda>b. [Gen_devices, Magic_command (Lines b)]) bs)"
proof (induction topo arbitrary: s)
  case Nil
  then show ?case by simp
next
  case (Cons e topo)
  obtain t c where e: "e = (t, c)" by (cases e)
  from Cons.prems e obtain s1 where
    1: "instantiate_devices E c mag path False
          (s\<lparr>stdout := stdout s @ [''Diagnostic:  instantiating devices.'']\<rparr>) = Inr s1" and
    2: "instantiate_layers E mag path topo s1 = Inr s'"
    by (auto split: sum.splits)
  from Cons.IH [OF 2] obtain bs where bs: "length bs = length topo"
    "calls s' = calls s1 @ concat (map (\<lambda>b. [Gen_devices, Magic_command (Lines b)]) bs)"
    by blast
  from instantiate_devices_calls [OF 1] obtain m :: magic where
    "calls s1 = calls s @ [Gen_devices, Magic_command (Lines (gen_devices m (store s)))]"
    by auto
  with bs have "length (gen_devices m (store s) # bs) = length (e # topo)
     \<and> calls s' = calls s @ concat (map (\<lambda>b. [Gen_devices, Magic_command (Lines b)])
          (gen_devices m (store s) # bs))"
    by simp
  then show ?case by blast
qed

lemmas ex_defs = ex_env_def ex_state_def ex_mag_def ex_macro_cell_def ex_generated_def

lemmas run_defs = instantiate_circuit_def instantiate_devices_def clear_mag_files_def
  magic_command_def os_path_exists_def os_path_join_def os_makedirs_def store_def Let_def

lemma ex_generated_objects:
  "circuits ex_generated 0 =
     \<lparr>circ_type = CircuitT, devices = [(''M1'', 1), (''X1'', 2)], sub_device = None\<rparr>"
  "circuits ex_generated (Suc 0) =
     \<lparr>circ_type = SubCircuitT, devices = [(''M2'', 3)], sub_device = Some 2\<rparr>"
  "devs ex_generated (Suc 0) = \<lparr>dev_type = DeviceT, dev_name = ''M1'', dev_cell = None\<rparr>"
  "devs ex_generated 2 =
     \<lparr>dev_type = SubDeviceT, dev_name = ''X1'', dev_cell = Some ex_macro_cell\<rparr>"
  "devs ex_generated 3 = \<lparr>dev_type = DeviceT, dev_name = ''M2'', dev_cell = None\<rparr>"
  by (simp_all add: ex_generated_def ex_state_def)

lemma instantiate_devices_keep:
  assumes "os_path_exists s path"
  shows "instantiate_devices E C (Some m) path False s =
     (case run_lines m (gen_devices m (store s)) (tool_cwd s) (files s) of
        Inl e \<Rightarrow>
          Inl (e, s\<lparr>calls := calls s @
                 [Gen_devices, Magic_command (Lines (gen_devices m (store s)))]\<rparr>)
      | Inr f \<Rightarrow>
          Inr (update_paths (realpath E path) (map snd (devices (circuits s C)))
                 (s\<lparr>calls := calls s @
                       [Gen_devices, Magic_command (Lines (gen_devices m (store s)))],
                    files := f\<rparr>)))"
proof -
  have e: "os_path_exists (s\<lparr>calls := calls s @ [Gen_devices]\<rparr>) path"
    using assms by (simp add: os_path_exists_def)
  show ?thesis
    by (simp add: instantiate_devices_def Let_def e magic_command_def split: sum.splits)
qed

lemma instantiate_circuit_Some:
  assumes "get_top_down_topology E (store s) Circ = Inr topo"
  shows "instantiate_circuit E Circ (Some m) path s =
           instantiate_layers E (Some m) path (sort_key fst topo)
             ((if \<not> os_path_exists s path then os_makedirs path s else s)
                \<lparr>calls := calls s @
                    [Magic_command (Str (''cd '' @ os_path_join (cwd s) path)),
                     Magic_command (Str ''foreach fname [glob *.mag] {file delete $fname}'')],
                 tool_cwd := os_path_join (cwd s) path,
                 files := (\<lambda>p. if mag_file_in (os_path_join (cwd s) path) p then None
                                else files s p)\<rparr>)"
  using assms
  by (simp add: instantiate_circuit_def Let_def clear_mag_files_Some os_makedirs_def
        cong del: if_weak_cong)

subsection \<open>The loops of the cell binder\<close>

lemma generate_cell_set_cell [simp]:
  "generate_cell E n p (set_cell d c s) = generate_cell E n p s"
  by (simp add: generate_cell_def set_cell_def os_path_exists_def)

lemma set_cell_frame [simp]:
  "circuits (set_cell d c s) = circuits s"
  "cwd (set_cell d c s) = cwd s"
  "dirs (set_cell d c s) = dirs s"
  "files (set_cell d c s) = files s"
  "tool_cwd (set_cell d c s) = tool_cwd s"
  "calls (set_cell d c s) = calls s"
  "stdout (set_cell d c s) = stdout s"
  "dev_type (devs (set_cell d c s) x) = dev_type (devs s x)"
  "dev_name (devs (set_cell d c s) x) = dev_name (devs s x)"
  by (simp_all add: set_cell_def)

lemma add_cells_devices_frame:
  assumes "add_cells_devices E path ds s = Inr s' \<or> add_cells_devices E path ds s = Inl (e, s')"
  shows "circuits s' = circuits s \<and> cwd s' = cwd s \<and> dirs s' = dirs s \<and> files s' = files s
       \<and> tool_cwd s' = tool_cwd s \<and> calls s' = calls s \<and> stdout s' = stdout s
       \<and> (\<forall>x. dev_type (devs s' x) = dev_type (devs s x)
              \<and> dev_name (devs s' x) = dev_name (devs s x))"
  using assms
proof (induction ds arbitrary: s)
  case Nil
  then show ?case by simp
next
  case (Cons a ds)
  obtain n d where a: "a = (n, d)" by (cases a)
  show ?case
  proof (cases "dev_type (devs s d) \<noteq> SubDeviceT")
    case False
    with Cons.prems a have "add_cells_devices E path ds s = Inr s'
        \<or> add_cells_devices E path ds s = Inl (e, s')" by simp
    from Cons.IH [OF this] show ?thesis .
  next
    case True
    show ?thesis
    proof (cases "generate_cell E n path s")
      case (Inl err)
      with Cons.prems a True show ?thesis by simp
    next
      case (Inr c)
      with Cons.prems a True have "add_cells_devices E path ds (set_cell d c s) = Inr s'
        \<or> add_cells_devices E path ds (set_cell d c s) = Inl (e, s')" by simp
      from Cons.IH [OF this] show ?thesis by simp
    qed
  qed
qed

lemma add_cells_devices_append:
  "add_cells_devices E path (xs @ ys) s =
     (case add_cells_devices E path xs s of
        Inl e \<Rightarrow> Inl e
      | Inr s' \<Rightarrow> add_cells_devices E path ys s')"
  by (induction xs arbitrary: s) (auto split: sum.splits)

lemma add_cells_layers_flat:
  "add_cells_layers E path topo s =
     add_cells_devices E path (concat (map (\<lambda>x. devices (circuits s (snd x))) topo)) s"
proof (induction topo arbitrary: s)
  case Nil
  show ?case by simp
next
  case (Cons a topo)
  obtain t c where a: "a = (t, c)" by (cases a)
  show ?case
  proof (cases "add_cells_devices E path (devices (circuits s c)) s")
    case (Inl x)
    then show ?thesis by (simp add: a add_cells_devices_append)
  next
    case (Inr s1)
    then have "circuits s1 = circuits s"
      using add_cells_devices_frame [of E path "devices (circuits s c)" s s1] by simp
    with Inr show ?thesis by (simp add: a add_cells_devices_append Cons.IH)
  qed
qed

lemma add_cells_devices_others:
  assumes "add_cells_devices E path ds s = Inr s'"
    and "d \<notin> snd ` set ds \<or> dev_type (devs s d) = SubDeviceT"
  shows "devs s' d = devs s d"
  using assms
proof (induction ds arbitrary: s)
  case Nil
  then show ?case by simp
next
  case (Cons a ds)
  obtain n0 d0 where a: "a = (n0, d0)" by (cases a)
  show ?case
  proof (cases "dev_type (devs s d0) \<noteq> SubDeviceT")
    case False
    with Cons.prems a have 1: "add_cells_devices E path ds s = Inr s'" by simp
    from Cons.prems(2) a have "d \<notin> snd ` set ds \<or> dev_type (devs s d) = SubDeviceT" by auto
    from Cons.IH [OF 1 this] show ?thesis .
  next
    case True
    with Cons.prems a obtain c where c: "generate_cell E n0 path s = Inr c"
      and 1: "add_cells_devices E path ds (set_cell d0 c s) = Inr s'"
      by (auto split: sum.splits)
    from Cons.prems(2) a True have ne: "d \<noteq> d0" by auto
    from Cons.prems(2) a have "d \<notin> snd ` set ds \<or> dev_type (devs (set_cell d0 c s) d) = SubDeviceT"
      by auto
    from Cons.IH [OF 1 this] ne show ?thesis by (simp add: set_cell_def)
  qed
qed

lemma add_cells_devices_bound:
  assumes "add_cells_devices E path ds s = Inr s'"
    and "(n, d) \<in> set ds" and "dev_type (devs s d) \<noteq> SubDeviceT"
  shows "\<exists>n' c. (n', d) \<in> set ds \<and> generate_cell E n' path s = Inr c
            \<and> devs s' d = (devs s d)\<lparr>dev_cell := Some c\<rparr>"
  using assms
proof (induction ds arbitrary: s n)
  case Nil
  then show ?case by simp
next
  case (Cons a ds)
  obtain n0 d0 where a: "a = (n0, d0)" by (cases a)
  show ?case
  proof (cases "dev_type (devs s d0) \<noteq> SubDeviceT")
    case False
    with Cons.prems a have 1: "add_cells_devices E path ds s = Inr s'" by simp
    from Cons.prems a False have "(n, d) \<in> set ds" by auto
    from Cons.IH [OF 1 this Cons.prems(3)] show ?thesis by auto
  next
    case True
    with Cons.prems a obtain c where c: "generate_cell E n0 path s = Inr c"
      and 1: "add_cells_devices E path ds (set_cell d0 c s) = Inr s'"
      by (auto split: sum.splits)
    show ?thesis
    proof (cases "d \<in> snd ` set ds")
      case True
      then obtain n2 where "(n2, d) \<in> set ds" by auto
      from Cons.IH [OF 1 this] Cons.prems(3)
      obtain n' c' where "(n', d) \<in> set ds" "generate_cell E n' path s = Inr c'"
        "devs s' d = (devs (set_cell d0 c s) d)\<lparr>dev_cell := Some c'\<rparr>"
        by auto
      then show ?thesis by (auto simp: set_cell_def)
    next
      case False
      with Cons.prems(2) a have d: "d = d0" by force
      from add_cells_devices_others [OF 1] False
      have "devs s' d = devs (set_cell d0 c s) d" by simp
      with d c a show ?thesis by (auto simp: set_cell_def)
    qed
  qed
qed

lemma add_cells_devices_succeeds:
  "(\<exists>s'. add_cells_devices E path ds s = Inr s') =
     (\<forall>(n, d) \<in> set ds. dev_type (devs s d) \<noteq> SubDeviceT \<longrightarrow>
         (\<exists>c. generate_cell E n path s = Inr c))"
proof (induction ds arbitrary: s)
  case Nil
  show ?case by simp
next
  case (Cons a ds)
  obtain n0 d0 where a: "a = (n0, d0)" by (cases a)
  show ?case
  proof (cases "dev_type (devs s d0) \<noteq> SubDeviceT")
    case False
    then show ?thesis using Cons.IH [of s] by (simp add: a)
  next
    case True
    show ?thesis
    proof (cases "generate_cell E n0 path s")
      case (Inl e)
      with True show ?thesis by (auto simp: a)
    next
      case (Inr c)
      with True show ?thesis using Cons.IH [of "set_cell d0 c s"] by (simp add: a)
    qed
  qed
qed

lemma topology_devices_member:
  fixes topo :: "(int \<times> cid) list"
  shows "((n, d) \<in> set (concat (map (\<lambda>x. devices (circuits s (snd x))) (sort_key fst topo)))) =
    (\<exists>t c. (t, c) \<in> set topo \<and> (n, d) \<in> set (devices (circuits s c)))"
proof
  assume "(n, d) \<in> set (concat (map (\<lambda>x. devices (circuits s (snd x))) (sort_key fst topo)))"
  then obtain x where x: "x \<in> set topo" "(n, d) \<in> set (devices (circuits s (snd x)))"
    by auto
  obtain t c where "x = (t, c)" by (cases x)
  with x show "\<exists>t c. (t, c) \<in> set topo \<and> (n, d) \<in> set (devices (circuits s c))"
    by auto
next
  assume "\<exists>t c. (t, c) \<in> set topo \<and> (n, d) \<in> set (devices (circuits s c))"
  then obtain t c where "(t, c) \<in> set topo" "(n, d) \<in> set (devices (circuits s (snd (t, c))))"
    by auto
  then show "(n, d) \<in> set (concat (map (\<lambda>x. devices (circuits s (snd x))) (sort_key fst topo)))"
    unfolding set_concat set_map set_sort by blast
qed

subsection \<open>The recursion of the cell binder\<close>

lemmas bind_defs = add_cells_try_def generate_cell_def set_cell_def Cell_def add_path_def

lemma add_cells_success:
  "add_cells_try E circ path s = Inr s' \<Longrightarrow> add_cells E circ mag path s = Some (Inr s')"
  by (subst add_cells.simps) simp

lemma add_cells_heal:
  "add_cells_try E circ path s = Inl (FileNotFoundError, s1) \<Longrightarrow>
   instantiate_circuit E circ mag path (s1\<lparr>stdout := stdout s1 @ not_found_lines path\<rparr>) = Inr s2 \<Longrightarrow>
   add_cells E circ mag path s = add_cells E circ mag path s2"
  by (subst add_cells.simps) simp

lemma add_cells_heal_fails:
  "add_cells_try E circ path s = Inl (FileNotFoundError, s1) \<Longrightarrow>
   instantiate_circuit E circ mag path (s1\<lparr>stdout := stdout s1 @ not_found_lines path\<rparr>) = Inl err \<Longrightarrow>
   add_cells E circ mag path s = Some (Inl err)"
  by (subst add_cells.simps) simp

lemma add_cells_fatal:
  "add_cells_try E circ path s = Inl (e, s1) \<Longrightarrow> e \<noteq> FileNotFoundError \<Longrightarrow>
   add_cells E circ mag path s =
     Some (Inl (SystemExit 1, s1\<lparr>stdout := stdout s1 @ [failed_line E circ]\<rparr>))"
  by (subst add_cells.simps) simp

lemma add_cells_diverges:
  assumes step: "\<And>x. I x \<Longrightarrow> \<exists>s1 s2. add_cells_try E circ path x = Inl (FileNotFoundError, s1)
            \<and> instantiate_circuit E circ mag path (s1\<lparr>stdout := stdout s1 @ not_found_lines path\<rparr>) = Inr s2
            \<and> I s2"
    and init: "I s"
  shows "add_cells E circ mag path s = None"
proof (rule ccontr)
  assume "add_cells E circ mag path s \<noteq> None"
  then obtain y where y: "add_cells E circ mag path s = Some y" by auto
  have aux: "Ea = E \<Longrightarrow> ca = circ \<Longrightarrow> ma = mag \<Longrightarrow> pa = path \<Longrightarrow> I sa \<Longrightarrow> False"
    if "add_cells Ea ca ma pa sa = Some ya" for Ea ca ma pa sa ya
    using that
  proof (induction rule: add_cells.raw_induct [rotated, consumes 1])
    case (1 f Eb cb mb pb sb yb)
    from step [OF \<open>I sb\<close>] obtain s1 s2 where
      a: "add_cells_try E circ path sb = Inl (FileNotFoundError, s1)" and
      b: "instantiate_circuit E circ mag path (s1\<lparr>stdout := stdout s1 @ not_found_lines path\<rparr>) = Inr s2" and
      c: "I s2" by blast
    from 1(2) have "f E circ mag path s2 = Some yb"
      by (simp add: 1(3-6) a b)
    from 1(1) [OF this] c show False by simp
  qed
  from aux [OF y] init show False by simp
qed


lemma add_cells_results:
  assumes "add_cells E circ mag path s = Some r"
  shows "case r of
           Inr s' \<Rightarrow> (\<exists>s0. add_cells_try E circ path s0 = Inr s')
         | Inl (e, s') \<Rightarrow>
             (\<exists>s0 e0 s1. add_cells_try E circ path s0 = Inl (e0, s1) \<and> e0 \<noteq> FileNotFoundError
                 \<and> e = SystemExit 1 \<and> s' = s1\<lparr>stdout := stdout s1 @ [failed_line E circ]\<rparr>)
             \<or> (\<exists>s0 s1. add_cells_try E circ path s0 = Inl (FileNotFoundError, s1)
                  \<and> instantiate_circuit E circ mag path
                        (s1\<lparr>stdout := stdout s1 @ not_found_lines path\<rparr>) = Inl (e, s'))"
  using assms
proof (induction rule: add_cells.raw_induct [rotated, consumes 1])
  case (1 f Eb cb mb pb sb yb)
  show ?case
  proof (cases "add_cells_try Eb cb pb sb")
    case (Inr s')
    with 1(2) show ?thesis by auto
  next
    case (Inl x)
    obtain e s1 where x: "x = (e, s1)" by (cases x)
    show ?thesis
    proof (cases "e = FileNotFoundError")
      case False
      with 1(2) Inl x
      have "yb = Inl (SystemExit 1, s1\<lparr>stdout := stdout s1 @ [failed_line Eb cb]\<rparr>)"
        by simp
      moreover have "\<exists>s0 e0 s1'. add_cells_try Eb cb pb s0 = Inl (e0, s1') \<and> e0 \<noteq> FileNotFoundError
                 \<and> SystemExit 1 = SystemExit 1
                 \<and> s1\<lparr>stdout := stdout s1 @ [failed_line Eb cb]\<rparr> =
                     s1'\<lparr>stdout := stdout s1' @ [failed_line Eb cb]\<rparr>"
        using Inl x False by blast
      ultimately show ?thesis by simp
    next
      case True
      show ?thesis
      proof (cases "instantiate_circuit Eb cb mb pb (s1\<lparr>stdout := stdout s1 @ not_found_lines pb\<rparr>)")
        case (Inl err)
        obtain e' s' where err: "err = (e', s')" by (cases err)
        from 1(2) \<open>add_cells_try Eb cb pb sb = Inl x\<close> x True Inl
        have "yb = Inl (e', s')" by (simp add: err)
        moreover have "\<exists>s0 s1'. add_cells_try Eb cb pb s0 = Inl (FileNotFoundError, s1')
                  \<and> instantiate_circuit Eb cb mb pb
                        (s1'\<lparr>stdout := stdout s1' @ not_found_lines pb\<rparr>) = Inl (e', s')"
          using \<open>add_cells_try Eb cb pb sb = Inl x\<close> x True Inl err by blast
        ultimately show ?thesis by simp
      next
        case (Inr s2)
        with 1(2) \<open>add_cells_try Eb cb pb sb = Inl x\<close> x True
        have "f Eb cb mb pb s2 = Some yb" by simp
        from 1(1) [OF this] show ?thesis .
      qed
    qed
  qed
qed

subsection \<open>Healing at the example hierarchy\<close>

lemma ex_try_fails:
  assumes "circuits s = circuits ex_state" "devs s = devs ex_state" "cwd s = ''/w''"
    and "files s ''/w/Dev/M1.mag'' = None" "''/w/Dev/M1.mag'' \<notin> dirs s"
  shows "add_cells_try ex_env 0 ''Dev'' s = Inl (FileNotFoundError, s)"
  using assms
  by (simp add: add_cells_try_def ex_env_def ex_state_def generate_cell_def
        os_path_exists_def os_path_join_def)

lemma ex_try_succeeds:
  assumes "circuits s = circuits ex_state" "devs s = devs ex_state" "cwd s = ''/w''"
    and "files s ''/w/Dev/M1.mag'' = Some ''m1''" "files s ''/w/Dev/M2.mag'' = Some ''m2''"
  shows "\<exists>s'. add_cells_try ex_env 0 ''Dev'' s = Inr s' \<and> stdout s' = stdout s
            \<and> calls s' = calls s"
  using assms
  by (simp add: add_cells_try_def ex_env_def ex_state_def generate_cell_def
        os_path_exists_def os_path_join_def set_cell_def)


lemma mag_file_in_Dev [simp]:
  "mag_file_in ''/w/Dev'' ''/w/Dev/M1.mag''"
  "mag_file_in ''/w/Dev'' ''/w/Dev/M2.mag''"
  "\<not> mag_file_in ''/w/Dev'' ''/w/Dev/count''"
  by (simp_all add: mag_file_in_def)

lemma ex_update_paths [simp]:
  "devs s = devs ex_state \<Longrightarrow> devs (update_paths p ds s) = devs ex_state"
  by (rule ext) (simp add: update_paths_devs ex_state_def ex_macro_cell_def)

lemma ex_slow_devices:
  assumes "circuits s = circuits ex_state" "devs s = devs ex_state" "cwd s = ''/w''"
    and "tool_cwd s = ''/w/Dev''" and "''/w/Dev'' \<in> dirs s"
  shows "\<exists>s2. instantiate_devices ex_env c (Some slow_mag) ''Dev'' False s = Inr s2
     \<and> circuits s2 = circuits ex_state \<and> devs s2 = devs ex_state \<and> cwd s2 = ''/w''
     \<and> tool_cwd s2 = ''/w/Dev'' \<and> dirs s2 = dirs s
     \<and> stdout s2 = stdout s
     \<and> calls s2 = calls s @ [Gen_devices, Magic_command (Lines [''gen''])]
     \<and> files s2 ''/w/Dev'' = files s ''/w/Dev''
     \<and> files s2 ''/w/Dev/M1.mag'' =
          (if files s ''/w/Dev/count'' = None \<or> files s ''/w/Dev/count'' = Some ''1''
           then files s ''/w/Dev/M1.mag'' else Some ''m1'')
     \<and> files s2 ''/w/Dev/M2.mag'' =
          (if files s ''/w/Dev/count'' = None \<or> files s ''/w/Dev/count'' = Some ''1''
           then files s ''/w/Dev/M2.mag'' else Some ''m2'')
     \<and> files s2 ''/w/Dev/count'' =
          (if files s ''/w/Dev/count'' = None then Some ''1''
           else if files s ''/w/Dev/count'' = Some ''1'' then Some ''2''
           else files s ''/w/Dev/count'')"
proof -
  have "os_path_exists s ''Dev''"
    using assms by (simp add: os_path_exists_def os_path_join_def)
  from instantiate_devices_keep [OF this, of ex_env c slow_mag] assms
  show ?thesis
    by (simp add: slow_mag_def update_paths_frame)
qed


lemma ex_slow_heal:
  assumes "circuits s = circuits ex_state" "devs s = devs ex_state" "cwd s = ''/w''"
    and "dirs s \<subseteq> {''/w/Dev''}" and "files s ''/w/Dev'' = None"
  shows "\<exists>s2. instantiate_circuit ex_env 0 (Some slow_mag) ''Dev'' s = Inr s2
     \<and> circuits s2 = circuits ex_state \<and> devs s2 = devs ex_state \<and> cwd s2 = ''/w''
     \<and> dirs s2 \<subseteq> {''/w/Dev''} \<and> files s2 ''/w/Dev'' = None
     \<and> stdout s2 = stdout s @ [''Diagnostic:  instantiating devices.'',
                                ''Diagnostic:  instantiating devices.'']
     \<and> calls s2 = calls s @
           [Magic_command (Str ''cd /w/Dev''),
            Magic_command (Str ''foreach fname [glob *.mag] {file delete $fname}''),
            Gen_devices, Magic_command (Lines [''gen'']),
            Gen_devices, Magic_command (Lines [''gen''])]
     \<and> files s2 ''/w/Dev/M1.mag'' =
          (if files s ''/w/Dev/count'' = None then None else Some ''m1'')
     \<and> files s2 ''/w/Dev/M2.mag'' =
          (if files s ''/w/Dev/count'' = None then None else Some ''m2'')
     \<and> files s2 ''/w/Dev/count'' =
          (if files s ''/w/Dev/count'' = None \<or> files s ''/w/Dev/count'' = Some ''1''
           then Some ''2'' else files s ''/w/Dev/count'')"
proof -
  define sb where "sb =
    (if \<not> os_path_exists s ''Dev'' then os_makedirs ''Dev'' s else s)
      \<lparr>calls := calls s @
          [Magic_command (Str (''cd '' @ os_path_join (cwd s) ''Dev'')),
           Magic_command (Str ''foreach fname [glob *.mag] {file delete $fname}'')],
       tool_cwd := os_path_join (cwd s) ''Dev'',
       files := (\<lambda>p. if mag_file_in (os_path_join (cwd s) ''Dev'') p then None
                      else files s p)\<rparr>"
  define s0 where "s0 = sb\<lparr>stdout := stdout sb @ [''Diagnostic:  instantiating devices.'']\<rparr>"
  have t: "get_top_down_topology ex_env (store s) 0 = Inr [(1, 1), (0, 0)]"
    by (simp add: ex_env_def)
  have e1: "instantiate_circuit ex_env 0 (Some slow_mag) ''Dev'' s =
      instantiate_layers ex_env (Some slow_mag) ''Dev'' (sort_key fst [(1, 1), (0, 0)]) sb"
    unfolding sb_def by (rule instantiate_circuit_Some [OF t])
  have e2: "sort_key fst [(1 :: int, 1 :: nat), (0, 0)] = [(0, 0), (1, 1)]"
    by simp
  have eq: "instantiate_circuit ex_env 0 (Some slow_mag) ''Dev'' s =
     (case instantiate_devices ex_env 0 (Some slow_mag) ''Dev'' False s0 of
        Inl e \<Rightarrow> Inl e
      | Inr s1 \<Rightarrow>
          (case instantiate_devices ex_env 1 (Some slow_mag) ''Dev'' False
                  (s1\<lparr>stdout := stdout s1 @ [''Diagnostic:  instantiating devices.'']\<rparr>) of
             Inl e \<Rightarrow> Inl e
           | Inr s2 \<Rightarrow> Inr s2))"
    unfolding e1 e2 s0_def by (simp split: sum.splits)
  have p0: "circuits s0 = circuits ex_state" "devs s0 = devs ex_state" "cwd s0 = ''/w''"
    "tool_cwd s0 = ''/w/Dev''" "''/w/Dev'' \<in> dirs s0" "dirs s0 \<subseteq> {''/w/Dev''}"
    "calls s0 = calls s @ [Magic_command (Str ''cd /w/Dev''),
            Magic_command (Str ''foreach fname [glob *.mag] {file delete $fname}'')]"
    "stdout s0 = stdout s @ [''Diagnostic:  instantiating devices.'']"
    "files s0 ''/w/Dev'' = None" "files s0 ''/w/Dev/M1.mag'' = None"
    "files s0 ''/w/Dev/M2.mag'' = None" "files s0 ''/w/Dev/count'' = files s ''/w/Dev/count''"
    using assms
    by (auto simp: s0_def sb_def os_makedirs_def os_path_exists_def os_path_join_def
          mag_file_in_def)
  from ex_slow_devices [OF p0(1-5), of 0] obtain s1 where
    s1: "instantiate_devices ex_env 0 (Some slow_mag) ''Dev'' False s0 = Inr s1"
      "circuits s1 = circuits ex_state" "devs s1 = devs ex_state" "cwd s1 = ''/w''"
      "tool_cwd s1 = ''/w/Dev''" "dirs s1 = dirs s0" "stdout s1 = stdout s0"
      "calls s1 = calls s0 @ [Gen_devices, Magic_command (Lines [''gen''])]"
      "files s1 ''/w/Dev'' = files s0 ''/w/Dev''"
      "files s1 ''/w/Dev/M1.mag'' =
          (if files s0 ''/w/Dev/count'' = None \<or> files s0 ''/w/Dev/count'' = Some ''1''
           then files s0 ''/w/Dev/M1.mag'' else Some ''m1'')"
      "files s1 ''/w/Dev/M2.mag'' =
          (if files s0 ''/w/Dev/count'' = None \<or> files s0 ''/w/Dev/count'' = Some ''1''
           then files s0 ''/w/Dev/M2.mag'' else Some ''m2'')"
      "files s1 ''/w/Dev/count'' =
          (if files s0 ''/w/Dev/count'' = None then Some ''1''
           else if files s0 ''/w/Dev/count'' = Some ''1'' then Some ''2''
           else files s0 ''/w/Dev/count'')"
    by blast
  define s1' where "s1' = s1\<lparr>stdout := stdout s1 @ [''Diagnostic:  instantiating devices.'']\<rparr>"
  have p1: "circuits s1' = circuits ex_state" "devs s1' = devs ex_state" "cwd s1' = ''/w''"
    "tool_cwd s1' = ''/w/Dev''" "''/w/Dev'' \<in> dirs s1'"
    using s1 p0 by (simp_all add: s1'_def)
  from ex_slow_devices [OF p1, of 1] obtain s2 where
    s2: "instantiate_devices ex_env 1 (Some slow_mag) ''Dev'' False s1' = Inr s2"
      "circuits s2 = circuits ex_state" "devs s2 = devs ex_state" "cwd s2 = ''/w''"
      "tool_cwd s2 = ''/w/Dev''" "dirs s2 = dirs s1'" "stdout s2 = stdout s1'"
      "calls s2 = calls s1' @ [Gen_devices, Magic_command (Lines [''gen''])]"
      "files s2 ''/w/Dev'' = files s1' ''/w/Dev''"
      "files s2 ''/w/Dev/M1.mag'' =
          (if files s1' ''/w/Dev/count'' = None \<or> files s1' ''/w/Dev/count'' = Some ''1''
           then files s1' ''/w/Dev/M1.mag'' else Some ''m1'')"
      "files s2 ''/w/Dev/M2.mag'' =
          (if files s1' ''/w/Dev/count'' = None \<or> files s1' ''/w/Dev/count'' = Some ''1''
           then files s1' ''/w/Dev/M2.mag'' else Some ''m2'')"
      "files s2 ''/w/Dev/count'' =
          (if files s1' ''/w/Dev/count'' = None then Some ''1''
           else if files s1' ''/w/Dev/count'' = Some ''1'' then Some ''2''
           else files s1' ''/w/Dev/count'')"
    by blast
  have "instantiate_circuit ex_env 0 (Some slow_mag) ''Dev'' s = Inr s2"
    using s1(1) s2(1) by (simp add: eq s1'_def)
  moreover have "files s1' = files s1" "stdout s1' = stdout s1 @ [''Diagnostic:  instantiating devices.'']"
    "calls s1' = calls s1" "dirs s1' = dirs s1"
    by (simp_all add: s1'_def)
  ultimately show ?thesis
    using s1(2-) s2(2-) p0 by auto
qed

lemma ex_idle_devices:
  assumes "circuits s = circuits ex_state" "devs s = devs ex_state" "cwd s = ''/w''"
    and "''/w/Dev'' \<in> dirs s"
  shows "\<exists>s2. instantiate_devices ex_env c (Some idle_mag) ''Dev'' False s = Inr s2
     \<and> circuits s2 = circuits ex_state \<and> devs s2 = devs ex_state \<and> cwd s2 = ''/w''
     \<and> dirs s2 = dirs s \<and> files s2 = files s"
proof -
  have "os_path_exists s ''Dev''"
    using assms by (simp add: os_path_exists_def os_path_join_def)
  from instantiate_devices_keep [OF this, of ex_env c idle_mag] assms
  show ?thesis
    by (simp add: idle_mag_def update_paths_frame)
qed

lemma ex_idle_heal:
  assumes "circuits s = circuits ex_state" "devs s = devs ex_state" "cwd s = ''/w''"
    and "dirs s \<subseteq> {''/w/Dev''}" and "files s ''/w/Dev'' = None"
  shows "\<exists>s2. instantiate_circuit ex_env 0 (Some idle_mag) ''Dev'' s = Inr s2
     \<and> circuits s2 = circuits ex_state \<and> devs s2 = devs ex_state \<and> cwd s2 = ''/w''
     \<and> dirs s2 \<subseteq> {''/w/Dev''} \<and> files s2 ''/w/Dev'' = None
     \<and> files s2 ''/w/Dev/M1.mag'' = None"
proof -
  define sb where "sb =
    (if \<not> os_path_exists s ''Dev'' then os_makedirs ''Dev'' s else s)
      \<lparr>calls := calls s @
          [Magic_command (Str (''cd '' @ os_path_join (cwd s) ''Dev'')),
           Magic_command (Str ''foreach fname [glob *.mag] {file delete $fname}'')],
       tool_cwd := os_path_join (cwd s) ''Dev'',
       files := (\<lambda>p. if mag_file_in (os_path_join (cwd s) ''Dev'') p then None
                      else files s p)\<rparr>"
  define s0 where "s0 = sb\<lparr>stdout := stdout sb @ [''Diagnostic:  instantiating devices.'']\<rparr>"
  have t: "get_top_down_topology ex_env (store s) 0 = Inr [(1, 1), (0, 0)]"
    by (simp add: ex_env_def)
  have e1: "instantiate_circuit ex_env 0 (Some idle_mag) ''Dev'' s =
      instantiate_layers ex_env (Some idle_mag) ''Dev'' (sort_key fst [(1, 1), (0, 0)]) sb"
    unfolding sb_def by (rule instantiate_circuit_Some [OF t])
  have e2: "sort_key fst [(1 :: int, 1 :: nat), (0, 0)] = [(0, 0), (1, 1)]"
    by simp
  have eq: "instantiate_circuit ex_env 0 (Some idle_mag) ''Dev'' s =
     (case instantiate_devices ex_env 0 (Some idle_mag) ''Dev'' False s0 of
        Inl e \<Rightarrow> Inl e
      | Inr s1 \<Rightarrow>
          (case instantiate_devices ex_env 1 (Some idle_mag) ''Dev'' False
                  (s1\<lparr>stdout := stdout s1 @ [''Diagnostic:  instantiating devices.'']\<rparr>) of
             Inl e \<Rightarrow> Inl e
           | Inr s2 \<Rightarrow> Inr s2))"
    unfolding e1 e2 s0_def by (simp split: sum.splits)
  have p0: "circuits s0 = circuits ex_state" "devs s0 = devs ex_state" "cwd s0 = ''/w''"
    "''/w/Dev'' \<in> dirs s0"
    and q0: "dirs s0 \<subseteq> {''/w/Dev''}" "files s0 ''/w/Dev'' = None"
      "files s0 ''/w/Dev/M1.mag'' = None"
    using assms
    by (auto simp: s0_def sb_def os_makedirs_def os_path_exists_def os_path_join_def
          mag_file_in_def)
  from ex_idle_devices [OF p0, of 0] obtain s1 where
    s1: "instantiate_devices ex_env 0 (Some idle_mag) ''Dev'' False s0 = Inr s1"
      "circuits s1 = circuits ex_state" "devs s1 = devs ex_state" "cwd s1 = ''/w''"
      "dirs s1 = dirs s0" "files s1 = files s0"
    by blast
  define s1' where "s1' = s1\<lparr>stdout := stdout s1 @ [''Diagnostic:  instantiating devices.'']\<rparr>"
  have p1: "circuits s1' = circuits ex_state" "devs s1' = devs ex_state" "cwd s1' = ''/w''"
    "''/w/Dev'' \<in> dirs s1'"
    using s1 p0 by (simp_all add: s1'_def)
  from ex_idle_devices [OF p1, of 1] obtain s2 where
    s2: "instantiate_devices ex_env 1 (Some idle_mag) ''Dev'' False s1' = Inr s2"
      "circuits s2 = circuits ex_state" "devs s2 = devs ex_state" "cwd s2 = ''/w''"
      "dirs s2 = dirs s1'" "files s2 = files s1'"
    by blast
  have "instantiate_circuit ex_env 0 (Some idle_mag) ''Dev'' s = Inr s2"
    using s1(1) s2(1) by (simp add: eq s1'_def)
  moreover have "files s1' = files s1" "dirs s1' = dirs s1"
    by (simp_all add: s1'_def)
  ultimately show ?thesis
    using s1(2-) s2(2-) q0 by auto
qed

lemma ex_idle_step:
  assumes "ex_missing x"
  shows "\<exists>s1 s2. add_cells_try ex_env 0 ''Dev'' x = Inl (FileNotFoundError, s1)
     \<and> instantiate_circuit ex_env 0 (Some idle_mag) ''Dev''
          (s1\<lparr>stdout := stdout s1 @ not_found_lines ''Dev''\<rparr>) = Inr s2
     \<and> ex_missing s2"
proof -
  from assms have I: "circuits x = circuits ex_state" "devs x = devs ex_state"
    "cwd x = ''/w''" "dirs x \<subseteq> {''/w/Dev''}" "files x ''/w/Dev'' = None"
    "files x ''/w/Dev/M1.mag'' = None"
    by (simp_all add: ex_missing_def)
  then have f: "add_cells_try ex_env 0 ''Dev'' x = Inl (FileNotFoundError, x)"
    by (intro ex_try_fails) auto
  from I ex_idle_heal [of "x\<lparr>stdout := stdout x @ not_found_lines ''Dev''\<rparr>"]
  obtain s2 where "instantiate_circuit ex_env 0 (Some idle_mag) ''Dev''
        (x\<lparr>stdout := stdout x @ not_found_lines ''Dev''\<rparr>) = Inr s2"
    "ex_missing s2"
    by (auto simp: ex_missing_def)
  with f show ?thesis by blast
qed

subsection \<open>The placement functions\<close>

lemma place_circuit_Some:
  "place_circuit name Circ (Some m) path debug clean_path s =
     magic_command m (Lines (place_circuit_lines m (store s) name))
       ((if \<not> os_path_exists s path then os_makedirs path s else s)
          \<lparr>calls := calls s @
              [Place_circuit name,
               Magic_command (Str (''cd '' @ os_path_join (cwd s) path)),
               Magic_command (Str ''foreach fname [glob *.mag] {file delete $fname}'')],
           tool_cwd := os_path_join (cwd s) path,
           files := (\<lambda>p. if mag_file_in (os_path_join (cwd s) path) p then None
                          else files s p)\<rparr>)"
proof -
  have e: "os_path_exists (s\<lparr>calls := calls s @ [Place_circuit name]\<rparr>) path =
             os_path_exists s path"
    by (simp add: os_path_exists_def)
  show ?thesis
    by (simp add: place_circuit_def Let_def e clear_mag_files_Some os_makedirs_def
          cong del: if_weak_cong)
qed

lemma place_circuit_Inr:
  assumes "place_circuit name Circ mag path debug clean_path s = Inr s'"
  shows "\<exists>m. mag = Some m
     \<and> calls s' = calls s @
          [Place_circuit name,
           Magic_command (Str (''cd '' @ os_path_join (cwd s) path)),
           Magic_command (Str ''foreach fname [glob *.mag] {file delete $fname}''),
           Magic_command (Lines (place_circuit_lines m (store s) name))]
     \<and> circuits s' = circuits s \<and> devs s' = devs s \<and> cwd s' = cwd s
     \<and> stdout s' = stdout s \<and> tool_cwd s' = os_path_join (cwd s) path
     \<and> dirs s \<subseteq> dirs s'
     \<and> run_lines m (place_circuit_lines m (store s) name) (os_path_join (cwd s) path)
           (\<lambda>p. if mag_file_in (os_path_join (cwd s) path) p then None else files s p)
         = Inr (files s')"
proof -
  from assms obtain m where m: "mag = Some m"
    by (cases mag) (auto simp: place_circuit_def)
  from assms [unfolded m place_circuit_Some]
  show ?thesis
    using m
    by (auto simp: magic_command_def Let_def os_makedirs_def split: sum.splits if_splits)
qed


lemma normalized_copy_Inr:
  assumes "normalized_copy s circ = Inr (cc, sd)"
  shows "sub_device (circuits s circ) = Some sd
     \<and> (\<exists>mc. dev_cell (devs s sd) = Some mc
           \<and> cc = ((circuits s,
                    (devs s)(sd := (devs s sd)\<lparr>dev_cell :=
                       Some (move_cells_to_bound
                               (rotate_center (- rotation (move_center (0, 0) mc))
                                  (move_center (0, 0) mc)))\<rparr>)), circ))"
  using assms
  by (auto simp: normalized_copy_def deepcopy_def store_def Let_def split: option.splits)

lemma rebind_macro_path_Inr:
  assumes "rebind_macro_path E path circ s = Inr s'"
  shows "\<exists>sd mc. sub_device (circuits s circ) = Some sd \<and> dev_cell (devs s sd) = Some mc
     \<and> s' = s\<lparr>devs := (devs s)(sd := (devs s sd)\<lparr>dev_cell :=
                  Some (mc\<lparr>cell_path := Some (realpath E path)\<rparr>)\<rparr>)\<rparr>"
  using assms
  by (auto simp: rebind_macro_path_def add_path_def split: option.splits)

lemma place_entry_Inr:
  assumes "place_entry E name mag path entry s = Inr s'"
  shows "\<exists>m. mag = Some m
     \<and> calls s' = calls s @
          [Place_circuit (entry_name s name (snd entry)),
           Magic_command (Str (''cd '' @ os_path_join (cwd s) path)),
           Magic_command (Str ''foreach fname [glob *.mag] {file delete $fname}''),
           Magic_command (Lines (place_circuit_lines m (store s) (entry_name s name (snd entry))))]
     \<and> circuits s' = circuits s \<and> cwd s' = cwd s \<and> stdout s' = stdout s
     \<and> tool_cwd s' = os_path_join (cwd s) path \<and> dirs s \<subseteq> dirs s'
     \<and> run_lines m (place_circuit_lines m (store s) (entry_name s name (snd entry)))
           (os_path_join (cwd s) path)
           (\<lambda>p. if mag_file_in (os_path_join (cwd s) path) p then None else files s p)
         = Inr (files s')
     \<and> (if circ_type (circuits s (snd entry)) = SubCircuitT
         then (\<exists>sd mc. sub_device (circuits s (snd entry)) = Some sd
                 \<and> dev_cell (devs s sd) = Some mc
                 \<and> devs s' = (devs s)(sd := (devs s sd)\<lparr>dev_cell :=
                       Some (mc\<lparr>cell_path := Some (realpath E path)\<rparr>)\<rparr>))
         else devs s' = devs s)"
proof (cases "circ_type (circuits s (snd entry)) = SubCircuitT")
  case False
  with assms have "place_circuit name (store s, snd entry) mag path False False s = Inr s'"
    by (simp add: place_entry_def Let_def)
  from place_circuit_Inr [OF this] False show ?thesis
    by (auto simp: entry_name_def)
next
  case True
  with assms obtain cc sd s1 where
    n: "normalized_copy s (snd entry) = Inr (cc, sd)" and
    p: "place_circuit (dev_name (snd (fst cc) sd)) cc mag path False False s = Inr s1" and
    r: "rebind_macro_path E path (snd entry) s1 = Inr s'"
    by (auto simp: place_entry_def Let_def split: sum.splits)
  from normalized_copy_Inr [OF n] obtain mc where
    sd: "sub_device (circuits s (snd entry)) = Some sd" and
    mc: "dev_cell (devs s sd) = Some mc" and
    nm: "dev_name (snd (fst cc) sd) = dev_name (devs s sd)"
    by auto
  from place_circuit_Inr [OF p] obtain m where m: "mag = Some m"
     and s1: "calls s1 = calls s @
          [Place_circuit (dev_name (devs s sd)),
           Magic_command (Str (''cd '' @ os_path_join (cwd s) path)),
           Magic_command (Str ''foreach fname [glob *.mag] {file delete $fname}''),
           Magic_command (Lines (place_circuit_lines m (store s) (dev_name (devs s sd))))]"
       "circuits s1 = circuits s" "devs s1 = devs s" "cwd s1 = cwd s"
       "stdout s1 = stdout s" "tool_cwd s1 = os_path_join (cwd s) path"
       "dirs s \<subseteq> dirs s1"
       "run_lines m (place_circuit_lines m (store s) (dev_name (devs s sd)))
           (os_path_join (cwd s) path)
           (\<lambda>p. if mag_file_in (os_path_join (cwd s) path) p then None else files s p)
         = Inr (files s1)"
    unfolding nm by blast
  from rebind_macro_path_Inr [OF r] s1 sd mc
  have s': "s' = s1\<lparr>devs := (devs s)(sd := (devs s sd)\<lparr>dev_cell :=
                  Some (mc\<lparr>cell_path := Some (realpath E path)\<rparr>)\<rparr>)\<rparr>"
    by auto
  have en: "entry_name s name (snd entry) = dev_name (devs s sd)"
    using True sd by (simp add: entry_name_def)
  show ?thesis
    using m s1 sd mc True by (auto simp: s' en)
qed


lemma placed_names_append:
  "placed_names (xs @ ys) = placed_names xs @ placed_names ys"
  by (induction xs rule: placed_names.induct) simp_all

lemma entry_name_cong:
  assumes "circuits s' = circuits s" "\<And>d. dev_name (devs s' d) = dev_name (devs s d)"
  shows "entry_name s' name c = entry_name s name c"
  using assms by (simp add: entry_name_def split: option.splits)

lemma place_entry_names:
  assumes "place_entry E name mag path entry s = Inr s'"
  shows "placed_names (calls s') = placed_names (calls s) @ [entry_name s name (snd entry)]
     \<and> circuits s' = circuits s \<and> (\<forall>d. dev_name (devs s' d) = dev_name (devs s d))"
proof -
  from place_entry_Inr [OF assms] obtain m :: magic where
    c: "calls s' = calls s @
          [Place_circuit (entry_name s name (snd entry)),
           Magic_command (Str (''cd '' @ os_path_join (cwd s) path)),
           Magic_command (Str ''foreach fname [glob *.mag] {file delete $fname}''),
           Magic_command (Lines (place_circuit_lines m (store s) (entry_name s name (snd entry))))]"
    and k: "circuits s' = circuits s"
    and d: "if circ_type (circuits s (snd entry)) = SubCircuitT
         then (\<exists>sd mc. sub_device (circuits s (snd entry)) = Some sd
                 \<and> dev_cell (devs s sd) = Some mc
                 \<and> devs s' = (devs s)(sd := (devs s sd)\<lparr>dev_cell :=
                       Some (mc\<lparr>cell_path := Some (realpath E path)\<rparr>)\<rparr>))
         else devs s' = devs s"
    by blast
  from d have "\<forall>d. dev_name (devs s' d) = dev_name (devs s d)"
    by (auto split: if_splits)
  with c k show ?thesis by (simp add: placed_names_append)
qed

lemma place_entries_names:
  assumes "place_entries E name mag path es s = Inr s'"
  shows "placed_names (calls s') =
           placed_names (calls s) @ map (\<lambda>e. entry_name s name (snd e)) es
     \<and> circuits s' = circuits s \<and> (\<forall>d. dev_name (devs s' d) = dev_name (devs s d))"
  using assms
proof (induction es arbitrary: s)
  case Nil
  then show ?case by simp
next
  case (Cons e es)
  from Cons.prems obtain s1 where
    1: "place_entry E name mag path e s = Inr s1" and
    2: "place_entries E name mag path es s1 = Inr s'"
    by (auto split: sum.splits)
  note a = place_entry_names [OF 1]
  note b = Cons.IH [OF 2]
  have "entry_name s1 name c = entry_name s name c" for c
    using a by (intro entry_name_cong) auto
  with a b show ?case by simp
qed

lemma sorted_descending_index:
  fixes L :: "(int \<times> 'a) list"
  assumes "sorted (map (\<lambda>x. - fst x) L)" "i < length L" "j < length L"
    "fst (L ! j) < fst (L ! i)"
  shows "i < j"
proof (rule ccontr)
  assume "\<not> i < j"
  then have "j \<le> i" by simp
  with assms(1,2) have "map (\<lambda>x. - fst x) L ! j \<le> map (\<lambda>x. - fst x) L ! i"
    by (intro sorted_nth_mono) auto
  with assms show False by simp
qed

lemmas place_defs = place_circuit_hierachical_def place_entry_def normalized_copy_def
  rebind_macro_path_def deepcopy_def place_circuit_Some move_center_def rotate_center_def
  move_cells_to_bound_def rotate_about_def add_path_def

subsection \<open>The geometry of a macro cell\<close>

lemma fold_min_shift:
  fixes a k :: int
  shows "fold min (map (\<lambda>x. x - k) xs) (a - k) = fold min xs a - k"
proof (induction xs arbitrary: a)
  case Nil
  show ?case by simp
next
  case (Cons x xs)
  have "min (x - k) (a - k) = min x a - k" by (simp add: min_def)
  with Cons.IH [of "min x a"] show ?case by simp
qed

lemma fold_min_shift_comp:
  fixes a k :: int
  shows "fold min (map ((\<lambda>x. x - k) \<circ> g) ps) (a - k) = fold min (map g ps) a - k"
  using fold_min_shift [of k "map g ps" a] by simp

lemma rotate_about_zero: "map (rotate_about m 0) xs = xs"
  by (induction xs) (simp_all add: rotate_about_def)

lemma translate_zero: "map (\<lambda>(x, y). (x + (0 :: int), y + (0 :: int))) xs = xs"
  by (induction xs) auto

lemma move_cells_to_bound_aligned: "bounds_aligned (move_cells_to_bound c)"
proof (cases "cells c")
  case Nil
  then show ?thesis by (simp add: bounds_aligned_def move_cells_to_bound_def)
next
  case (Cons p ps)
  obtain x y where p: "p = (x, y)" by (cases p)
  have f: "map (fst \<circ> (\<lambda>(a, b). (a - k, b - l))) ps = map (\<lambda>a. a - k) (map fst ps)"
    and s: "map (snd \<circ> (\<lambda>(a, b). (a - k, b - l))) ps = map (\<lambda>b. b - l) (map snd ps)"
    for k l :: int
    by (simp_all add: case_prod_beta comp_def)
  show ?thesis
    using Cons p
    by (simp add: bounds_aligned_def move_cells_to_bound_def f s fold_min_shift_comp)
qed

subsection \<open>Healing\<close>

text \<open>Claim C1, as amended.  When the lookups of a round succeed, \<^verbatim>\<open>add_cells\<close> returns.
  When a lookup fails with \<^verbatim>\<open>FileNotFoundError\<close>, the handler prints its two lines, invokes
  \<^verbatim>\<open>instantiate_circuit\<close> once and calls \<^verbatim>\<open>add_cells\<close> again on the state this leaves; an
  exception of the instantiation propagates.  The call made by the handler is a full
  \<^verbatim>\<open>add_cells\<close> with the same handler, so the same holds in every round and nothing bounds
  the number of heals: whenever every heal leaves a state whose lookups fail again,
  \<^verbatim>\<open>add_cells\<close> never returns.\<close>

theorem add_cells_heals_without_bound:
  "(\<forall>s'. add_cells_try E circ path s = Inr s' \<longrightarrow>
        add_cells E circ mag path s = Some (Inr s'))
   \<and> (\<forall>s1 s2. add_cells_try E circ path s = Inl (FileNotFoundError, s1) \<longrightarrow>
        instantiate_circuit E circ mag path
          (s1\<lparr>stdout := stdout s1 @ not_found_lines path\<rparr>) = Inr s2 \<longrightarrow>
        add_cells E circ mag path s = add_cells E circ mag path s2)
   \<and> (\<forall>s1 err. add_cells_try E circ path s = Inl (FileNotFoundError, s1) \<longrightarrow>
        instantiate_circuit E circ mag path
          (s1\<lparr>stdout := stdout s1 @ not_found_lines path\<rparr>) = Inl err \<longrightarrow>
        add_cells E circ mag path s = Some (Inl err))
   \<and> (\<forall>I. I s \<longrightarrow>
        (\<forall>x. I x \<longrightarrow>
           (\<exists>s1 s2. add_cells_try E circ path x = Inl (FileNotFoundError, s1)
              \<and> instantiate_circuit E circ mag path
                   (s1\<lparr>stdout := stdout s1 @ not_found_lines path\<rparr>) = Inr s2
              \<and> I s2)) \<longrightarrow>
        add_cells E circ mag path s = None)"
proof (intro conjI allI impI)
  fix s' assume "add_cells_try E circ path s = Inr s'"
  then show "add_cells E circ mag path s = Some (Inr s')" by (rule add_cells_success)
next
  fix s1 s2
  assume "add_cells_try E circ path s = Inl (FileNotFoundError, s1)"
    and "instantiate_circuit E circ mag path
          (s1\<lparr>stdout := stdout s1 @ not_found_lines path\<rparr>) = Inr s2"
  then show "add_cells E circ mag path s = add_cells E circ mag path s2"
    by (rule add_cells_heal)
next
  fix s1 err
  assume "add_cells_try E circ path s = Inl (FileNotFoundError, s1)"
    and "instantiate_circuit E circ mag path
          (s1\<lparr>stdout := stdout s1 @ not_found_lines path\<rparr>) = Inl err"
  then show "add_cells E circ mag path s = Some (Inl err)"
    by (rule add_cells_heal_fails)
next
  fix I :: "state \<Rightarrow> bool"
  assume init: "I s"
    and step: "\<forall>x. I x \<longrightarrow>
           (\<exists>s1 s2. add_cells_try E circ path x = Inl (FileNotFoundError, s1)
              \<and> instantiate_circuit E circ mag path
                   (s1\<lparr>stdout := stdout s1 @ not_found_lines path\<rparr>) = Inr s2
              \<and> I s2)"
  show "add_cells E circ mag path s = None"
    by (rule add_cells_diverges [of I, OF _ init]) (use step in blast)
qed

text \<open>The theorem at the example.  With a tool that is one batch away from writing the
  device files the first round fails, one heal follows, and the second round succeeds.
  With a tool that never writes a file every round fails and \<^verbatim>\<open>add_cells\<close> does not
  return: the infinite loop that the comment in the handler warns of.\<close>

theorem add_cells_heals_without_bound_witness:
  "(\<exists>s'. add_cells ex_env 0 (Some slow_mag) ''Dev''
           (ex_state\<lparr>files := [''/w/Dev/count'' \<mapsto> ''2'']\<rparr>) = Some (Inr s')
       \<and> stdout s' = not_found_lines ''Dev'' @
            [''Diagnostic:  instantiating devices.'', ''Diagnostic:  instantiating devices.''])
   \<and> add_cells ex_env 0 (Some idle_mag) ''Dev'' ex_state = None"
proof -
  let ?s = "ex_state\<lparr>files := [''/w/Dev/count'' \<mapsto> ''2'']\<rparr>"
  have never: "add_cells ex_env 0 (Some idle_mag) ''Dev'' ex_state = None"
  proof -
    have "ex_missing ex_state"
      by (simp add: ex_missing_def ex_state_def)
    moreover have "\<forall>x. ex_missing x \<longrightarrow>
       (\<exists>s1 s2. add_cells_try ex_env 0 ''Dev'' x = Inl (FileNotFoundError, s1)
          \<and> instantiate_circuit ex_env 0 (Some idle_mag) ''Dev''
               (s1\<lparr>stdout := stdout s1 @ not_found_lines ''Dev''\<rparr>) = Inr s2
          \<and> ex_missing s2)"
      using ex_idle_step by blast
    ultimately show ?thesis
      using add_cells_heals_without_bound [of ex_env 0 "''Dev''" ex_state "Some idle_mag"]
      by blast
  qed
  note inst = add_cells_heals_without_bound [of ex_env 0 "''Dev''" _ "Some slow_mag"]
  have r1: "add_cells_try ex_env 0 ''Dev'' ?s = Inl (FileNotFoundError, ?s)"
    by (rule ex_try_fails) (simp_all add: ex_state_def)
  from ex_slow_heal [of "?s\<lparr>stdout := stdout ?s @ not_found_lines ''Dev''\<rparr>"]
  obtain sA where
    hA: "instantiate_circuit ex_env 0 (Some slow_mag) ''Dev''
           (?s\<lparr>stdout := stdout ?s @ not_found_lines ''Dev''\<rparr>) = Inr sA" and
    A: "circuits sA = circuits ex_state" "devs sA = devs ex_state" "cwd sA = ''/w''" and
    oA: "stdout sA = not_found_lines ''Dev'' @ [''Diagnostic:  instantiating devices.'',
                           ''Diagnostic:  instantiating devices.'']" and
    fA: "files sA ''/w/Dev/M1.mag'' = Some ''m1''" "files sA ''/w/Dev/M2.mag'' = Some ''m2''"
    by (auto simp: ex_state_def)
  from ex_try_succeeds [OF A fA] obtain s' where
    r2: "add_cells_try ex_env 0 ''Dev'' sA = Inr s'" and o2: "stdout s' = stdout sA"
    by blast
  have "add_cells ex_env 0 (Some slow_mag) ''Dev'' ?s =
        add_cells ex_env 0 (Some slow_mag) ''Dev'' sA"
    using inst [of ?s] r1 hA by blast
  also have "\<dots> = Some (Inr s')"
    using inst [of sA] r2 by blast
  finally show ?thesis using o2 oA never by simp
qed

text \<open>Claim C1 as stated fails: a second \<^verbatim>\<open>FileNotFoundError\<close> is not fatal.  With the tool
  that needs three batches, the first two rounds of lookups fail, the handler runs twice
  (its lines are printed twice, and the instantiator asks for the device commands four
  times, twice per heal), and the third round of lookups succeeds.\<close>

theorem add_cells_second_heal_counterexample:
  "\<exists>s. add_cells ex_env 0 (Some slow_mag) ''Dev'' ex_state = Some (Inr s)
       \<and> stdout s =
            not_found_lines ''Dev'' @
            [''Diagnostic:  instantiating devices.'', ''Diagnostic:  instantiating devices.''] @
            not_found_lines ''Dev'' @
            [''Diagnostic:  instantiating devices.'', ''Diagnostic:  instantiating devices.'']
       \<and> length (filter (\<lambda>c. c = Gen_devices) (calls s)) = 4"
proof -
  let ?nf = "not_found_lines ''Dev''"
  have r1: "add_cells_try ex_env 0 ''Dev'' ex_state = Inl (FileNotFoundError, ex_state)"
    by (rule ex_try_fails) (simp_all add: ex_state_def)
  from ex_slow_heal [of "ex_state\<lparr>stdout := stdout ex_state @ ?nf\<rparr>"]
  obtain sA where
    hA: "instantiate_circuit ex_env 0 (Some slow_mag) ''Dev''
           (ex_state\<lparr>stdout := stdout ex_state @ ?nf\<rparr>) = Inr sA" and
    A: "circuits sA = circuits ex_state" "devs sA = devs ex_state" "cwd sA = ''/w''"
       "dirs sA \<subseteq> {''/w/Dev''}" "files sA ''/w/Dev'' = None" and
    oA: "stdout sA = ?nf @ [''Diagnostic:  instantiating devices.'',
                           ''Diagnostic:  instantiating devices.'']" and
    cA: "length (filter (\<lambda>c. c = Gen_devices) (calls sA)) = 2" and
    fA: "files sA ''/w/Dev/M1.mag'' = None" "files sA ''/w/Dev/count'' = Some ''2''"
    by (auto simp: ex_state_def)
  have r2: "add_cells_try ex_env 0 ''Dev'' sA = Inl (FileNotFoundError, sA)"
    using A fA by (intro ex_try_fails) auto
  from ex_slow_heal [of "sA\<lparr>stdout := stdout sA @ ?nf\<rparr>"] A
  obtain sB where
    hB: "instantiate_circuit ex_env 0 (Some slow_mag) ''Dev''
           (sA\<lparr>stdout := stdout sA @ ?nf\<rparr>) = Inr sB" and
    B: "circuits sB = circuits ex_state" "devs sB = devs ex_state" "cwd sB = ''/w''" and
    oB: "stdout sB = stdout sA @ ?nf @ [''Diagnostic:  instantiating devices.'',
                           ''Diagnostic:  instantiating devices.'']" and
    cB: "length (filter (\<lambda>c. c = Gen_devices) (calls sB)) =
           length (filter (\<lambda>c. c = Gen_devices) (calls sA)) + 2" and
    fB: "files sB ''/w/Dev/M1.mag'' = Some ''m1''" "files sB ''/w/Dev/M2.mag'' = Some ''m2''"
    using fA by auto
  from ex_try_succeeds [OF B fB] obtain s' where
    r3: "add_cells_try ex_env 0 ''Dev'' sB = Inr s'" and
    o3: "stdout s' = stdout sB" "calls s' = calls sB"
    by blast
  have "add_cells ex_env 0 (Some slow_mag) ''Dev'' ex_state =
        add_cells ex_env 0 (Some slow_mag) ''Dev'' sA"
    by (rule add_cells_heal [OF r1 hA])
  also have "\<dots> = add_cells ex_env 0 (Some slow_mag) ''Dev'' sB"
    by (rule add_cells_heal [OF r2 hB])
  also have "\<dots> = Some (Inr s')"
    by (rule add_cells_success [OF r3])
  finally show ?thesis
    using o3 oA oB cA cB by simp
qed

subsection \<open>Placement clears the directory\<close>

text \<open>Claim C2.  \<^verbatim>\<open>place_circuit\<close> with a tool object does not read its arguments
  \<^verbatim>\<open>Circuit\<close>, \<^verbatim>\<open>debug\<close> and \<^verbatim>\<open>clean_path\<close>.  Whatever their values, it asks the tool for the
  placement commands, moves the tool to the directory and has it delete every \<^verbatim>\<open>.mag\<close> file
  there, and only then submits the placement batch: the batch runs on files among which no
  \<^verbatim>\<open>.mag\<close> file of the directory is left.  So each iteration of the loop of
  \<^verbatim>\<open>place_circuit_hierachical\<close>, which passes \<^verbatim>\<open>clean_path=False\<close>, leaves the files as the
  batch of this iteration made them from a directory cleared of the \<^verbatim>\<open>.mag\<close> files of the
  iterations before.\<close>

theorem place_circuit_always_clears:
  "place_circuit name Circ (Some m) path debug clean_path s =
     place_circuit name Circ' (Some m) path debug' clean_path' s
   \<and> (\<exists>s1. place_circuit name Circ (Some m) path debug clean_path s =
              magic_command m (Lines (place_circuit_lines m (store s) name)) s1
          \<and> calls s1 = calls s @
               [Place_circuit name,
                Magic_command (Str (''cd '' @ os_path_join (cwd s) path)),
                Magic_command (Str ''foreach fname [glob *.mag] {file delete $fname}'')]
          \<and> tool_cwd s1 = os_path_join (cwd s) path
          \<and> (\<forall>p. files s1 p =
                 (if mag_file_in (os_path_join (cwd s) path) p then None else files s p)))
   \<and> (\<forall>E top entry s'. place_entry E top (Some m) path entry s = Inr s' \<longrightarrow>
         run_lines m (place_circuit_lines m (store s) (entry_name s top (snd entry)))
           (os_path_join (cwd s) path)
           (\<lambda>p. if mag_file_in (os_path_join (cwd s) path) p then None else files s p)
         = Inr (files s'))"
proof (intro conjI allI impI)
  show "place_circuit name Circ (Some m) path debug clean_path s =
     place_circuit name Circ' (Some m) path debug' clean_path' s"
    by (simp only: place_circuit_Some)
next
  let ?s1 = "(if \<not> os_path_exists s path then os_makedirs path s else s)
          \<lparr>calls := calls s @
              [Place_circuit name,
               Magic_command (Str (''cd '' @ os_path_join (cwd s) path)),
               Magic_command (Str ''foreach fname [glob *.mag] {file delete $fname}'')],
           tool_cwd := os_path_join (cwd s) path,
           files := (\<lambda>p. if mag_file_in (os_path_join (cwd s) path) p then None
                          else files s p)\<rparr>"
  have h: "place_circuit name Circ (Some m) path debug clean_path s =
              magic_command m (Lines (place_circuit_lines m (store s) name)) ?s1
          \<and> calls ?s1 = calls s @
               [Place_circuit name,
                Magic_command (Str (''cd '' @ os_path_join (cwd s) path)),
                Magic_command (Str ''foreach fname [glob *.mag] {file delete $fname}'')]
          \<and> tool_cwd ?s1 = os_path_join (cwd s) path
          \<and> (\<forall>p. files ?s1 p =
                 (if mag_file_in (os_path_join (cwd s) path) p then None else files s p))"
    unfolding place_circuit_Some
    by (cases "os_path_exists s path") (simp_all add: os_makedirs_def)
  show "\<exists>s1. place_circuit name Circ (Some m) path debug clean_path s =
              magic_command m (Lines (place_circuit_lines m (store s) name)) s1
          \<and> calls s1 = calls s @
               [Place_circuit name,
                Magic_command (Str (''cd '' @ os_path_join (cwd s) path)),
                Magic_command (Str ''foreach fname [glob *.mag] {file delete $fname}'')]
          \<and> tool_cwd s1 = os_path_join (cwd s) path
          \<and> (\<forall>p. files s1 p =
                 (if mag_file_in (os_path_join (cwd s) path) p then None else files s p))"
    by (rule exI [of _ ?s1]) (rule h)
next
  fix E top entry s'
  assume "place_entry E top (Some m) path entry s = Inr s'"
  from place_entry_Inr [OF this]
  show "run_lines m (place_circuit_lines m (store s) (entry_name s top (snd entry)))
           (os_path_join (cwd s) path)
           (\<lambda>p. if mag_file_in (os_path_join (cwd s) path) p then None else files s p)
         = Inr (files s')"
    by blast
qed

text \<open>The theorem at the example: the file placed for the top circuit is in the directory
  when the sub-circuit is placed, and is gone afterwards.\<close>

theorem place_circuit_always_clears_witness:
  "\<exists>s'. place_entry ex_env ''top'' (Some ex_mag) ''Place'' (0, 1)
           (ex_state\<lparr>dirs := {''/w/Place''},
                     files := [''/w/Place/top.mag'' \<mapsto> ''placed'']\<rparr>) = Inr s'
        \<and> files s' ''/w/Place/top.mag'' = None
        \<and> files s' ''/w/Place/X1.mag'' = Some ''placed''"
proof -
  let ?s = "ex_state\<lparr>dirs := {''/w/Place''},
                     files := [''/w/Place/top.mag'' \<mapsto> ''placed'']\<rparr>"
  have "\<exists>s'. place_entry ex_env ''top'' (Some ex_mag) ''Place'' (0, 1) ?s = Inr s'"
    by (simp add: ex_defs place_defs magic_command_def os_path_exists_def os_path_join_def
        os_makedirs_def store_def Let_def)
  then obtain s' where
    ok: "place_entry ex_env ''top'' (Some ex_mag) ''Place'' (0, 1) ?s = Inr s'" ..
  from place_circuit_always_clears [of "''top''" "(store ?s, 1)" ex_mag "''Place''" False False ?s
         "(store ?s, 1)" False False] ok
  have "run_lines ex_mag (place_circuit_lines ex_mag (store ?s) (entry_name ?s ''top'' (snd (0 :: int, 1 :: nat))))
           (os_path_join (cwd ?s) ''Place'')
           (\<lambda>p. if mag_file_in (os_path_join (cwd ?s) ''Place'') p then None else files ?s p)
         = Inr (files s')"
    by blast
  then have "files s' = (\<lambda>p. if mag_file_in ''/w/Place'' p then None
                              else [''/w/Place/top.mag'' \<mapsto> ''placed''] p)
                        (''/w/Place/X1.mag'' \<mapsto> ''placed'')"
    by (simp add: ex_defs entry_name_def os_path_join_def cong del: if_weak_cong)
  then have "files s' ''/w/Place/top.mag'' = None \<and> files s' ''/w/Place/X1.mag'' = Some ''placed''"
    by (simp add: mag_file_in_def)
  with ok show ?thesis by blast
qed

subsection \<open>Normalization works on a copy\<close>

text \<open>Claim C3.  In the \<^verbatim>\<open>SubCircuit\<close> branch the three calls are made on the macro cell of
  the deep copy, in the order \<^verbatim>\<open>move_center((0,0))\<close>, \<^verbatim>\<open>rotate_center\<close> by the negated
  rotation the moved cell has, \<^verbatim>\<open>_move_cells_to_bound\<close>; the copy differs from the original
  objects in that one cell only.  When the iteration returns, the circuits are the original
  ones and so is every device, but for the macro device of the original circuit, whose cell
  is the original cell with its path rebound to the resolved placement directory: position,
  rotation and child cells of the original are as before.\<close>

theorem normalization_on_copy_only:
  "(\<forall>cc sd. normalized_copy s circ = Inr (cc, sd) \<longrightarrow>
       sub_device (circuits s circ) = Some sd
       \<and> (\<exists>mc. dev_cell (devs s sd) = Some mc
             \<and> cc = ((circuits s,
                      (devs s)(sd := (devs s sd)\<lparr>dev_cell :=
                         Some (move_cells_to_bound
                                 (rotate_center (- rotation (move_center (0, 0) mc))
                                    (move_center (0, 0) mc)))\<rparr>)), circ)))
   \<and> (\<forall>s'. circ_type (circuits s circ) = SubCircuitT \<longrightarrow>
         place_entry E name mag path (t, circ) s = Inr s' \<longrightarrow>
         (\<exists>cc sd mc s1.
             normalized_copy s circ = Inr (cc, sd)
           \<and> place_circuit (dev_name (devs s sd)) cc mag path False False s = Inr s1
           \<and> circuits s1 = circuits s \<and> devs s1 = devs s
           \<and> dev_cell (devs s sd) = Some mc
           \<and> s' = s1\<lparr>devs := (devs s)(sd := (devs s sd)\<lparr>dev_cell :=
                        Some (mc\<lparr>cell_path := Some (realpath E path)\<rparr>)\<rparr>)\<rparr>))"
proof (intro conjI allI impI)
  fix cc sd assume "normalized_copy s circ = Inr (cc, sd)"
  from normalized_copy_Inr [OF this]
  show "sub_device (circuits s circ) = Some sd"
    and "\<exists>mc. dev_cell (devs s sd) = Some mc
             \<and> cc = ((circuits s,
                      (devs s)(sd := (devs s sd)\<lparr>dev_cell :=
                         Some (move_cells_to_bound
                                 (rotate_center (- rotation (move_center (0, 0) mc))
                                    (move_center (0, 0) mc)))\<rparr>)), circ)"
    by blast+
next
  fix s'
  assume sub: "circ_type (circuits s circ) = SubCircuitT"
    and ok: "place_entry E name mag path (t, circ) s = Inr s'"
  from ok sub obtain cc sd s1 where
    n: "normalized_copy s circ = Inr (cc, sd)" and
    p: "place_circuit (dev_name (snd (fst cc) sd)) cc mag path False False s = Inr s1" and
    r: "rebind_macro_path E path circ s1 = Inr s'"
    by (auto simp: place_entry_def Let_def split: sum.splits)
  from normalized_copy_Inr [OF n] obtain mc where
    sd: "sub_device (circuits s circ) = Some sd" and
    mc: "dev_cell (devs s sd) = Some mc" and
    nm: "dev_name (snd (fst cc) sd) = dev_name (devs s sd)"
    by auto
  from place_circuit_Inr [OF p] have f: "circuits s1 = circuits s" "devs s1 = devs s"
    by blast+
  from rebind_macro_path_Inr [OF r] f sd mc
  have s': "s' = s1\<lparr>devs := (devs s)(sd := (devs s sd)\<lparr>dev_cell :=
                  Some (mc\<lparr>cell_path := Some (realpath E path)\<rparr>)\<rparr>)\<rparr>"
    by auto
  from n p [unfolded nm] f mc s'
  show "\<exists>cc sd mc s1.
             normalized_copy s circ = Inr (cc, sd)
           \<and> place_circuit (dev_name (devs s sd)) cc mag path False False s = Inr s1
           \<and> circuits s1 = circuits s \<and> devs s1 = devs s
           \<and> dev_cell (devs s sd) = Some mc
           \<and> s' = s1\<lparr>devs := (devs s)(sd := (devs s sd)\<lparr>dev_cell :=
                        Some (mc\<lparr>cell_path := Some (realpath E path)\<rparr>)\<rparr>)\<rparr>"
    by blast
qed

text \<open>The theorem at the example: the macro cell of the copy ends centered, unrotated and
  aligned, the macro cell of the original keeps its geometry and gets the new path.\<close>

theorem normalization_on_copy_only_witness:
  "\<exists>cc s'. normalized_copy ex_state 1 = Inr (cc, 2)
     \<and> dev_cell (snd (fst cc) 2) =
           Some (ex_macro_cell\<lparr>center := (0, 0), rotation := 0, cells := [(0, 0)]\<rparr>)
     \<and> place_entry ex_env ''top'' (Some ex_mag) ''Place'' (0, 1) ex_state = Inr s'
     \<and> dev_cell (devs s' 2) = Some (ex_macro_cell\<lparr>cell_path := Some ''/w/Place''\<rparr>)
     \<and> devs s' 1 = devs ex_state 1"
proof -
  note inst = normalization_on_copy_only [of ex_state 1 ex_env "''top''" "Some ex_mag" "''Place''" 0]
  have "\<exists>cc. normalized_copy ex_state 1 = Inr (cc, 2)"
    by (simp add: normalized_copy_def deepcopy_def store_def Let_def ex_state_def)
  then obtain cc where n: "normalized_copy ex_state 1 = Inr (cc, 2)" ..
  from inst n obtain mc where
    m1: "dev_cell (devs ex_state 2) = Some mc" and
    m2: "cc = ((circuits ex_state,
            (devs ex_state)(2 := (devs ex_state 2)\<lparr>dev_cell :=
               Some (move_cells_to_bound
                       (rotate_center (- rotation (move_center (0, 0) mc))
                          (move_center (0, 0) mc)))\<rparr>)), 1)"
    by blast
  from m1 have m3: "mc = ex_macro_cell"
    by (simp add: ex_state_def)
  have c: "dev_cell (snd (fst cc) 2) =
           Some (ex_macro_cell\<lparr>center := (0, 0), rotation := 0, cells := [(0, 0)]\<rparr>)"
    unfolding m2 m3
    by (simp add: ex_macro_cell_def move_center_def rotate_center_def
          rotate_about_def move_cells_to_bound_def)
  have "\<exists>s'. place_entry ex_env ''top'' (Some ex_mag) ''Place'' (0, 1) ex_state = Inr s'"
    by (simp add: ex_defs place_defs magic_command_def os_path_exists_def os_path_join_def
        os_makedirs_def store_def Let_def)
  then obtain s' where
    ok: "place_entry ex_env ''top'' (Some ex_mag) ''Place'' (0, 1) ex_state = Inr s'" ..
  have sub: "circ_type (circuits ex_state 1) = SubCircuitT"
    by (simp add: ex_state_def)
  from inst sub ok n obtain mc' s1 where
    "dev_cell (devs ex_state 2) = Some mc'"
    "s' = s1\<lparr>devs := (devs ex_state)(2 := (devs ex_state 2)\<lparr>dev_cell :=
                  Some (mc'\<lparr>cell_path := Some (realpath ex_env ''Place'')\<rparr>)\<rparr>)\<rparr>"
    by fastforce
  with m1 m3 have "s' = s1\<lparr>devs := (devs ex_state)(2 := (devs ex_state 2)\<lparr>dev_cell :=
                  Some (ex_macro_cell\<lparr>cell_path := Some (realpath ex_env ''Place'')\<rparr>)\<rparr>)\<rparr>"
    by simp
  then have "dev_cell (devs s' 2) = Some (ex_macro_cell\<lparr>cell_path := Some ''/w/Place''\<rparr>)"
    "devs s' 1 = devs ex_state 1"
    by (simp_all add: ex_state_def ex_env_def)
  with n c ok show ?thesis by blast
qed

subsection \<open>The order of placement\<close>

text \<open>\<^verbatim>\<open>place_circuit_hierachical\<close> consumes the bottom-up topology in descending layer
  order (a stable sort that keeps every entry): when it returns, the placements the tool was
  asked for are those of the entries in that order, each under the name of its macro device
  or, for the top circuit, under the given name, so an entry is placed before every entry of
  a strictly smaller layer.  Which of a circuit and the circuits it embeds comes first
  therefore depends on the layering alone.\<close>

lemma place_circuit_hierachical_order:
  assumes topo: "get_bottom_up_topology E (store s) circuit = Inr topo"
    and ok: "place_circuit_hierachical E name circuit mag path clean_path s = Inr s'"
  shows "placed_names (calls s') =
           placed_names (calls s) @
           map (\<lambda>e. entry_name s name (snd e)) (sort_key (\<lambda>x. - fst x) topo)
     \<and> sorted (map (\<lambda>x. - fst x) (sort_key (\<lambda>x. - fst x) topo))
     \<and> set (sort_key (\<lambda>x. - fst x) topo) = set topo
     \<and> length (sort_key (\<lambda>x. - fst x) topo) = length topo
     \<and> (\<forall>i < length topo. \<forall>j < length topo.
           fst (sort_key (\<lambda>x. - fst x) topo ! j) < fst (sort_key (\<lambda>x. - fst x) topo ! i)
           \<longrightarrow> i < j)"
proof -
  let ?L = "sort_key (\<lambda>x. - fst x) topo"
  from ok obtain s1 where
    1: "(if os_path_exists s path \<and> clean_path then shutil_rmtree path s else Inr s) = Inr s1"
    by (auto simp: place_circuit_hierachical_def split: sum.splits)
  define s2 where "s2 = (if \<not> os_path_exists s1 path then os_makedirs path s1 else s1)"
  have f: "circuits s2 = circuits s" "devs s2 = devs s" "calls s2 = calls s"
    using 1 by (auto simp: s2_def os_makedirs_def shutil_rmtree_Inr split: if_splits)
  then have st: "store s2 = store s" by (simp add: store_def)
  from ok 1 topo st have 2: "place_entries E name mag path ?L s2 = Inr s'"
    by (simp add: place_circuit_hierachical_def Let_def s2_def [symmetric])
  have "entry_name s2 name c = entry_name s name c" for c
    using f by (intro entry_name_cong) auto
  with place_entries_names [OF 2] f
  have a: "placed_names (calls s') =
           placed_names (calls s) @ map (\<lambda>e. entry_name s name (snd e)) ?L"
    by simp
  have b: "sorted (map (\<lambda>x. - fst x) ?L)" by (rule sorted_sort_key)
  have c: "\<forall>i < length topo. \<forall>j < length topo. fst (?L ! j) < fst (?L ! i) \<longrightarrow> i < j"
    using sorted_descending_index [OF b] by simp
  from a b c show ?thesis by simp
qed

text \<open>At the example hierarchy with a topology whose layers grow with the depth below the
  root, the sub-circuit is placed first, under the name of its macro device, and the root
  after it.\<close>

lemma place_circuit_hierachical_order_deepest_first:
  "\<exists>s'. place_circuit_hierachical
           (ex_env\<lparr>get_bottom_up_topology := (\<lambda>ob c. Inr [(0, 0), (1, 1)])\<rparr>)
           ''top'' 0 (Some ex_mag) ''Place'' True ex_state = Inr s'
        \<and> placed_names (calls s') = [''X1'', ''top'']"
proof -
  let ?E = "ex_env\<lparr>get_bottom_up_topology := (\<lambda>ob c. Inr [(0, 0), (1, 1)])\<rparr>"
  have t: "get_bottom_up_topology ?E (store ex_state) 0 = Inr [(0, 0), (1, 1)]"
    by simp
  have "\<exists>s'. place_circuit_hierachical ?E ''top'' 0 (Some ex_mag) ''Place'' True ex_state = Inr s'"
    by (simp add: ex_defs place_defs magic_command_def os_path_exists_def os_path_join_def
        os_makedirs_def store_def Let_def)
  then obtain s' where
    ok: "place_circuit_hierachical ?E ''top'' 0 (Some ex_mag) ''Place'' True ex_state = Inr s'" ..
  from place_circuit_hierachical_order [OF t ok]
  have "placed_names (calls s') =
           placed_names (calls ex_state) @
           map (\<lambda>e. entry_name ex_state ''top'' (snd e))
             (sort_key (\<lambda>x. - fst x) [(0 :: int, 0 :: nat), (1, 1)])"
    by blast
  then have "placed_names (calls s') = [''X1'', ''top'']"
    by (simp add: entry_name_def ex_state_def)
  with ok show ?thesis by blast
qed


subsection \<open>The hierarchy instantiator\<close>

text \<open>Claim C5.  \<^verbatim>\<open>instantiate_circuit\<close> with a tool object computes the top-down topology
  and runs its loop over the entries sorted by ascending layer (a stable sort that keeps
  every entry).  Before the loop it makes the directory if needed, moves the tool there and
  has the tool delete the \<^verbatim>\<open>.mag\<close> files of the directory: the files go through the two
  commands sent to the tool, and nothing is removed by the process itself.  Each iteration
  calls \<^verbatim>\<open>instantiate_devices\<close> with \<^verbatim>\<open>del_path=False\<close>; such a call keeps every directory
  and leaves the files as the tool's batch made them.  When the function returns, the tool
  has received the two clearing commands once, at the start, and then one device batch per
  entry of the topology.\<close>

theorem instantiate_circuit_preclean_once:
  assumes "get_top_down_topology E (store s) Circ = Inr topo"
  shows "instantiate_circuit E Circ (Some m) path s =
           instantiate_layers E (Some m) path (sort_key fst topo)
             ((if \<not> os_path_exists s path then os_makedirs path s else s)
                \<lparr>calls := calls s @
                    [Magic_command (Str (''cd '' @ os_path_join (cwd s) path)),
                     Magic_command (Str ''foreach fname [glob *.mag] {file delete $fname}'')],
                 tool_cwd := os_path_join (cwd s) path,
                 files := (\<lambda>p. if mag_file_in (os_path_join (cwd s) path) p then None
                                else files s p)\<rparr>)
       \<and> sorted (map fst (sort_key fst topo))
       \<and> length (sort_key fst topo) = length topo \<and> set (sort_key fst topo) = set topo
       \<and> (\<forall>s'. instantiate_circuit E Circ (Some m) path s = Inr s' \<longrightarrow>
            (\<exists>bs. length bs = length topo \<and>
               calls s' = calls s @
                 [Magic_command (Str (''cd '' @ os_path_join (cwd s) path)),
                  Magic_command (Str ''foreach fname [glob *.mag] {file delete $fname}'')] @
                 concat (map (\<lambda>b. [Gen_devices, Magic_command (Lines b)]) bs)))
       \<and> (\<forall>t c rest s0 s1.
            instantiate_layers E (Some m) path ((t, c) # rest) s0 =
              (case instantiate_devices E c (Some m) path False
                      (s0\<lparr>stdout := stdout s0 @ [''Diagnostic:  instantiating devices.'']\<rparr>) of
                 Inl e \<Rightarrow> Inl e
               | Inr s1 \<Rightarrow> instantiate_layers E (Some m) path rest s1))
       \<and> (\<forall>c s0 s1. instantiate_devices E c (Some m) path False s0 = Inr s1 \<longrightarrow>
            run_lines m (gen_devices m (store s0)) (tool_cwd s0) (files s0) = Inr (files s1)
            \<and> dirs s0 \<subseteq> dirs s1)"
proof -
  have eq: "instantiate_circuit E Circ (Some m) path s =
           instantiate_layers E (Some m) path (sort_key fst topo)
             ((if \<not> os_path_exists s path then os_makedirs path s else s)
                \<lparr>calls := calls s @
                    [Magic_command (Str (''cd '' @ os_path_join (cwd s) path)),
                     Magic_command (Str ''foreach fname [glob *.mag] {file delete $fname}'')],
                 tool_cwd := os_path_join (cwd s) path,
                 files := (\<lambda>p. if mag_file_in (os_path_join (cwd s) path) p then None
                                else files s p)\<rparr>)"
    by (rule instantiate_circuit_Some [OF assms])
  have calls: "\<exists>bs. length bs = length topo \<and>
               calls s' = calls s @
                 [Magic_command (Str (''cd '' @ os_path_join (cwd s) path)),
                  Magic_command (Str ''foreach fname [glob *.mag] {file delete $fname}'')] @
                 concat (map (\<lambda>b. [Gen_devices, Magic_command (Lines b)]) bs)"
    if "instantiate_circuit E Circ (Some m) path s = Inr s'" for s'
    using instantiate_layers_calls [OF that [unfolded eq]]
    by (auto simp: os_makedirs_def)
  have dev: "run_lines m (gen_devices m (store s0)) (tool_cwd s0) (files s0) = Inr (files s1)
            \<and> dirs s0 \<subseteq> dirs s1"
    if "instantiate_devices E c (Some m) path False s0 = Inr s1" for c s0 s1
    using instantiate_devices_keeps_files [OF that] .
  show ?thesis
    using eq calls dev by simp
qed

text \<open>The theorem at the example hierarchy, whose topology has two entries.\<close>

theorem instantiate_circuit_preclean_once_witness:
  "get_top_down_topology ex_env (store ex_state) 0 = Inr [(1, 1), (0, 0)]
   \<and> sort_key fst [(1, 1), (0, 0 :: nat)] = [(0 :: int, 0), (1, 1)]
   \<and> (\<exists>s'. instantiate_circuit ex_env 0 (Some ex_mag) ''Dev'' ex_state = Inr s'
         \<and> calls s' =
             [Magic_command (Str ''cd /w/Dev''),
              Magic_command (Str ''foreach fname [glob *.mag] {file delete $fname}''),
              Gen_devices, Magic_command (Lines [''gen'']),
              Gen_devices, Magic_command (Lines [''gen''])])"
proof -
  have t: "get_top_down_topology ex_env (store ex_state) 0 = Inr [(1, 1), (0, 0)]"
    by (simp add: ex_env_def)
  have r: "\<exists>s'. instantiate_circuit ex_env 0 (Some ex_mag) ''Dev'' ex_state = Inr s'
         \<and> calls s' =
             [Magic_command (Str ''cd /w/Dev''),
              Magic_command (Str ''foreach fname [glob *.mag] {file delete $fname}''),
              Gen_devices, Magic_command (Lines [''gen'']),
              Gen_devices, Magic_command (Lines [''gen''])]"
    using instantiate_circuit_preclean_once [OF t, of ex_mag "''Dev''"]
    by (simp add: ex_defs run_defs)
  show ?thesis using t r by simp
qed

subsection \<open>The cell cache\<close>

text \<open>Claim C6.  \<^verbatim>\<open>generate_cell\<close> raises \<^verbatim>\<open>FileNotFoundError\<close> exactly when
  \<^verbatim>\<open>{path}/{name}.mag\<close> does not exist.  When it returns a cell, the file is there and the
  cell carries the name, the layers the parser read from that file and the resolved path
  of the directory.  The function takes no tool object and returns no state: a lookup
  generates nothing.\<close>

theorem generate_cell_lookup:
  "(generate_cell E name path s = Inl FileNotFoundError) =
      (\<not> os_path_exists s (path @ ''/'' @ name @ ''.mag''))
   \<and> (\<forall>c. generate_cell E name path s = Inr c \<longrightarrow>
        (\<exists>txt. files s (os_path_join (cwd s) (path @ ''/'' @ name @ ''.mag'')) = Some txt \<and>
           c = \<lparr>cell_name = name, cell_type = CellT, layers = parser_layers E txt,
                cell_path = Some (realpath E path), center = (0, 0), rotation = 0,
                cells = []\<rparr>))"
  by (auto simp: generate_cell_def Cell_def add_path_def split: option.splits)

theorem generate_cell_lookup_witness:
  "generate_cell ex_env ''M1'' ''Dev'' (ex_state\<lparr>files := [''/w/Dev/M1.mag'' \<mapsto> ''metal1'']\<rparr>) =
     Inr \<lparr>cell_name = ''M1'', cell_type = CellT, layers = [''metal1''],
          cell_path = Some ''/w/Dev'', center = (0, 0), rotation = 0, cells = []\<rparr>
   \<and> generate_cell ex_env ''M2'' ''Dev'' (ex_state\<lparr>files := [''/w/Dev/M1.mag'' \<mapsto> ''metal1'']\<rparr>) =
     Inl FileNotFoundError"
  using generate_cell_lookup [of ex_env "''M1''" "''Dev''"
          "ex_state\<lparr>files := [''/w/Dev/M1.mag'' \<mapsto> ''metal1'']\<rparr>"]
  by (simp add: generate_cell_def Cell_def add_path_def ex_env_def ex_state_def
        os_path_exists_def os_path_join_def)

subsection \<open>The device instantiator\<close>

text \<open>Claim C7, as amended.  When \<^verbatim>\<open>instantiate_devices\<close> returns, it has asked the tool
  for the device commands and submitted them as one batch, and after that every device of
  the circuit whose cell is an object of class \<^verbatim>\<open>Cell\<close> itself carries the resolved path
  of the directory in place of whatever path it had.  Nothing else of a device changes, and
  a device without a cell, a device whose cell is of another class, and a device of another
  circuit are as they were.\<close>

theorem instantiate_devices_rebinds:
  assumes "instantiate_devices E Circ mag path del_path s = Inr s'"
  shows "(\<exists>m. mag = Some m \<and>
            calls s' = calls s @ [Gen_devices, Magic_command (Lines (gen_devices m (store s)))])
       \<and> circuits s' = circuits s
       \<and> (\<forall>d. devs s' d =
            (if d \<in> snd ` set (devices (circuits s Circ)) then
               (case dev_cell (devs s d) of
                  None \<Rightarrow> devs s d
                | Some c \<Rightarrow>
                    if cell_type c = CellT
                    then (devs s d)\<lparr>dev_cell := Some (c\<lparr>cell_path := Some (realpath E path)\<rparr>)\<rparr>
                    else devs s d)
             else devs s d))"
  using instantiate_devices_Inr [OF assms] by blast

text \<open>The theorem at the example: the primitive device \<^verbatim>\<open>M1\<close> of the root is given a
  cell without a path, and the call binds it to the resolved directory.\<close>

theorem instantiate_devices_rebinds_witness:
  "\<exists>s'. instantiate_devices ex_env 0 (Some ex_mag) ''Dev'' False
            (set_cell 1 (Cell ''M1'' []) ex_state) = Inr s'
        \<and> dev_cell (devs s' 1) = Some ((Cell ''M1'' [])\<lparr>cell_path := Some ''/w/Dev''\<rparr>)
        \<and> devs s' 3 = devs ex_state 3"
proof -
  have "\<exists>s'. instantiate_devices ex_env 0 (Some ex_mag) ''Dev'' False
            (set_cell 1 (Cell ''M1'' []) ex_state) = Inr s'"
    by (simp add: instantiate_devices_def Let_def ex_mag_def magic_command_def
          os_path_exists_def)
  then obtain s' where r: "instantiate_devices ex_env 0 (Some ex_mag) ''Dev'' False
            (set_cell 1 (Cell ''M1'' []) ex_state) = Inr s'" ..
  from instantiate_devices_rebinds [OF r]
  have "\<forall>d. devs s' d =
            (if d \<in> snd ` set (devices (circuits (set_cell 1 (Cell ''M1'' []) ex_state) 0)) then
               (case dev_cell (devs (set_cell 1 (Cell ''M1'' []) ex_state) d) of
                  None \<Rightarrow> devs (set_cell 1 (Cell ''M1'' []) ex_state) d
                | Some c \<Rightarrow>
                    if cell_type c = CellT
                    then (devs (set_cell 1 (Cell ''M1'' []) ex_state) d)\<lparr>dev_cell := Some (c\<lparr>cell_path := Some (realpath ex_env ''Dev'')\<rparr>)\<rparr>
                    else devs (set_cell 1 (Cell ''M1'' []) ex_state) d)
             else devs (set_cell 1 (Cell ''M1'' []) ex_state) d)"
    by blast
  then have "dev_cell (devs s' 1) = Some ((Cell ''M1'' [])\<lparr>cell_path := Some ''/w/Dev''\<rparr>)"
    and "devs s' 3 = devs ex_state 3"
    by (simp_all add: set_cell_def ex_state_def ex_env_def Cell_def)
  with r show ?thesis by blast
qed

text \<open>Claim C7 as stated fails for a device that owns a macro cell: \<^verbatim>\<open>type(device.cell)
  == Cell\<close> is false for it, and its stale path stays.\<close>

theorem instantiate_devices_macro_cell_counterexample:
  "(''X1'', 2) \<in> set (devices (circuits ex_state 0))
   \<and> map_option cell_path (dev_cell (devs ex_state 2)) = Some (Some ''old'')
   \<and> realpath ex_env ''Dev'' = ''/w/Dev''
   \<and> (case instantiate_devices ex_env 0 (Some ex_mag) ''Dev'' False ex_state of
         Inl x \<Rightarrow> None
       | Inr s' \<Rightarrow> map_option cell_path (dev_cell (devs s' 2))) = Some (Some ''old'')"
  by (simp add: instantiate_devices_def Let_def ex_mag_def magic_command_def
        os_path_exists_def ex_state_def ex_env_def ex_macro_cell_def store_def os_makedirs_def)

subsection \<open>The cell binder without healing\<close>

text \<open>Claim C8.  The path of \<^verbatim>\<open>add_cells\<close> without healing is the one on which the body
  of its \<^verbatim>\<open>try\<close> statement raises nothing.  The body walks the top-down topology in
  ascending layer order.  It succeeds exactly when the lookup succeeds for every device that
  is not a \<^verbatim>\<open>SubDevice\<close>, under the name the device has in its circuit: no lookup is made
  for a macro device.  When it succeeds, \<^verbatim>\<open>add_cells\<close> returns with the state the body
  left, whatever the tool is: every such device of every circuit of the topology owns a cell
  that \<^verbatim>\<open>generate_cell\<close> returned for a name under which the device is listed; the macro
  devices, the circuits, the files and the tool are untouched, and nothing is printed.\<close>

theorem add_cells_try_binds:
  assumes topo: "get_top_down_topology E (store s) circ = Inr topo"
  shows "add_cells_try E circ path s = add_cells_layers E path (sort_key fst topo) s
       \<and> sorted (map fst (sort_key fst topo)) \<and> set (sort_key fst topo) = set topo
       \<and> ((\<exists>s'. add_cells_try E circ path s = Inr s') =
            (\<forall>(t, c) \<in> set topo. \<forall>(n, d) \<in> set (devices (circuits s c)).
                dev_type (devs s d) \<noteq> SubDeviceT \<longrightarrow> (\<exists>cl. generate_cell E n path s = Inr cl)))
       \<and> (\<forall>s'. add_cells_try E circ path s = Inr s' \<longrightarrow>
            add_cells E circ mag path s = Some (Inr s')
            \<and> (\<forall>(t, c) \<in> set topo. \<forall>(n, d) \<in> set (devices (circuits s c)).
                dev_type (devs s d) \<noteq> SubDeviceT \<longrightarrow>
                (\<exists>t' c' n' cl. (t', c') \<in> set topo \<and> (n', d) \<in> set (devices (circuits s c'))
                    \<and> generate_cell E n' path s = Inr cl
                    \<and> devs s' d = (devs s d)\<lparr>dev_cell := Some cl\<rparr>))
            \<and> (\<forall>d. dev_type (devs s d) = SubDeviceT \<longrightarrow> devs s' d = devs s d)
            \<and> circuits s' = circuits s \<and> files s' = files s \<and> dirs s' = dirs s
            \<and> calls s' = calls s \<and> stdout s' = stdout s)"
proof -
  let ?all = "concat (map (\<lambda>x. devices (circuits s (snd x))) (sort_key fst topo))"
  have eq: "add_cells_try E circ path s = add_cells_devices E path ?all s"
    using topo by (simp add: add_cells_try_def add_cells_layers_flat)
  have mem: "((n, d) \<in> set ?all) = (\<exists>t c. (t, c) \<in> set topo \<and> (n, d) \<in> set (devices (circuits s c)))"
    for n d
    by (rule topology_devices_member)
  have 1: "add_cells_try E circ path s = add_cells_layers E path (sort_key fst topo) s"
    using topo by (simp add: add_cells_try_def)
  have 2: "(\<exists>s'. add_cells_try E circ path s = Inr s') =
            (\<forall>(t, c) \<in> set topo. \<forall>(n, d) \<in> set (devices (circuits s c)).
                dev_type (devs s d) \<noteq> SubDeviceT \<longrightarrow> (\<exists>cl. generate_cell E n path s = Inr cl))"
    unfolding eq add_cells_devices_succeeds using mem by fast
  have 3: "\<exists>t' c' n' cl. (t', c') \<in> set topo \<and> (n', d) \<in> set (devices (circuits s c'))
                    \<and> generate_cell E n' path s = Inr cl
                    \<and> devs s' d = (devs s d)\<lparr>dev_cell := Some cl\<rparr>"
    if ok: "add_cells_try E circ path s = Inr s'" and tc: "(t, c) \<in> set topo"
      and nd: "(n, d) \<in> set (devices (circuits s c))" and prim: "dev_type (devs s d) \<noteq> SubDeviceT"
    for s' t c n d
  proof -
    from tc nd have "(n, d) \<in> set ?all" unfolding mem by blast
    from add_cells_devices_bound [OF ok [unfolded eq] this prim]
    obtain n' cl where "(n', d) \<in> set ?all" "generate_cell E n' path s = Inr cl"
      "devs s' d = (devs s d)\<lparr>dev_cell := Some cl\<rparr>" by blast
    then show ?thesis unfolding mem by blast
  qed
  have 4: "devs s' d = devs s d"
    if ok: "add_cells_try E circ path s = Inr s'" and "dev_type (devs s d) = SubDeviceT" for s' d
    using add_cells_devices_others [OF ok [unfolded eq]] that(2) by blast
  have 5: "circuits s' = circuits s \<and> files s' = files s \<and> dirs s' = dirs s
            \<and> calls s' = calls s \<and> stdout s' = stdout s"
    if ok: "add_cells_try E circ path s = Inr s'" for s'
    using add_cells_devices_frame [of E path ?all s s'] ok [unfolded eq] by blast
  have 6: "\<forall>s'. add_cells_try E circ path s = Inr s' \<longrightarrow>
            add_cells E circ mag path s = Some (Inr s')
            \<and> (\<forall>(t, c) \<in> set topo. \<forall>(n, d) \<in> set (devices (circuits s c)).
                dev_type (devs s d) \<noteq> SubDeviceT \<longrightarrow>
                (\<exists>t' c' n' cl. (t', c') \<in> set topo \<and> (n', d) \<in> set (devices (circuits s c'))
                    \<and> generate_cell E n' path s = Inr cl
                    \<and> devs s' d = (devs s d)\<lparr>dev_cell := Some cl\<rparr>))
            \<and> (\<forall>d. dev_type (devs s d) = SubDeviceT \<longrightarrow> devs s' d = devs s d)
            \<and> circuits s' = circuits s \<and> files s' = files s \<and> dirs s' = dirs s
            \<and> calls s' = calls s \<and> stdout s' = stdout s"
  proof (intro allI impI conjI ballI)
    fix s' assume ok: "add_cells_try E circ path s = Inr s'"
    show "add_cells E circ mag path s = Some (Inr s')"
      using ok by (rule add_cells_success)
    show "circuits s' = circuits s" "files s' = files s" "dirs s' = dirs s"
      "calls s' = calls s" "stdout s' = stdout s"
      using 5 [OF ok] by simp_all
    show "devs s' d = devs s d" if "dev_type (devs s d) = SubDeviceT" for d
      using 4 [OF ok that] .
    fix x assume x: "x \<in> set topo"
    show "case x of (t, c) \<Rightarrow> \<forall>(n, d) \<in> set (devices (circuits s c)).
                dev_type (devs s d) \<noteq> SubDeviceT \<longrightarrow>
                (\<exists>t' c' n' cl. (t', c') \<in> set topo \<and> (n', d) \<in> set (devices (circuits s c'))
                    \<and> generate_cell E n' path s = Inr cl
                    \<and> devs s' d = (devs s d)\<lparr>dev_cell := Some cl\<rparr>)"
    proof (cases x)
      case (Pair t c)
      show ?thesis
        unfolding Pair prod.case
      proof (intro ballI)
        fix y assume y: "y \<in> set (devices (circuits s c))"
        show "case y of (n, d) \<Rightarrow> dev_type (devs s d) \<noteq> SubDeviceT \<longrightarrow>
                (\<exists>t' c' n' cl. (t', c') \<in> set topo \<and> (n', d) \<in> set (devices (circuits s c'))
                    \<and> generate_cell E n' path s = Inr cl
                    \<and> devs s' d = (devs s d)\<lparr>dev_cell := Some cl\<rparr>)"
        proof (cases y)
          case (Pair n d)
          show ?thesis
            unfolding Pair prod.case
            using 3 [OF ok x [unfolded \<open>x = (t, c)\<close>] y [unfolded Pair]] by blast
        qed
      qed
    qed
  qed
  show ?thesis
    by (intro conjI) (fact 1, simp, simp, fact 2, fact 6)
qed

text \<open>The theorem at the example hierarchy with both device files present: \<^verbatim>\<open>add_cells\<close>
  returns, the two primitive devices are bound, the macro device is as before, the tool was
  not called and nothing was printed.\<close>

theorem add_cells_try_binds_witness:
  "get_top_down_topology ex_env (store ex_generated) 0 = Inr [(1, 1), (0, 0)]
   \<and> (\<exists>s'. add_cells ex_env 0 (Some ex_mag) ''Dev'' ex_generated = Some (Inr s')
         \<and> dev_cell (devs s' 1) = Some ((Cell ''M1'' [''m1''])\<lparr>cell_path := Some ''/w/Dev''\<rparr>)
         \<and> dev_cell (devs s' 3) = Some ((Cell ''M2'' [''m2''])\<lparr>cell_path := Some ''/w/Dev''\<rparr>)
         \<and> devs s' 2 = devs ex_generated 2
         \<and> calls s' = calls ex_generated \<and> stdout s' = stdout ex_generated)"
proof -
  have t: "get_top_down_topology ex_env (store ex_generated) 0 = Inr [(1, 1), (0, 0)]"
    by (simp add: ex_env_def)
  note inst = add_cells_try_binds [OF t, of "''Dev''" "Some ex_mag"]
  have g: "generate_cell ex_env ''M1'' ''Dev'' ex_generated =
             Inr ((Cell ''M1'' [''m1''])\<lparr>cell_path := Some ''/w/Dev''\<rparr>)"
    "generate_cell ex_env ''M2'' ''Dev'' ex_generated =
             Inr ((Cell ''M2'' [''m2''])\<lparr>cell_path := Some ''/w/Dev''\<rparr>)"
    by (simp_all add: generate_cell_def ex_defs os_path_exists_def os_path_join_def
          add_path_def Cell_def)
  note c2 = conjunct2
  from inst [THEN c2, THEN c2, THEN c2, THEN conjunct1] have iff: "(\<exists>s'. add_cells_try ex_env 0 ''Dev'' ex_generated = Inr s') =
            (\<forall>(t, c) \<in> set [(1 :: int, 1 :: nat), (0, 0)]. \<forall>(n, d) \<in> set (devices (circuits ex_generated c)).
                dev_type (devs ex_generated d) \<noteq> SubDeviceT \<longrightarrow>
                  (\<exists>cl. generate_cell ex_env n ''Dev'' ex_generated = Inr cl))"
    .
  have "\<exists>s'. add_cells_try ex_env 0 ''Dev'' ex_generated = Inr s'"
    unfolding iff by (simp add: ex_generated_objects g)
  then obtain s' where ok: "add_cells_try ex_env 0 ''Dev'' ex_generated = Inr s'" ..
  note after = inst [THEN c2, THEN c2, THEN c2, THEN c2, THEN spec, THEN mp, OF ok]
  from after have ret: "add_cells ex_env 0 (Some ex_mag) ''Dev'' ex_generated = Some (Inr s')"
    by (elim conjE)
  from after have "\<forall>d. dev_type (devs ex_generated d) = SubDeviceT \<longrightarrow>
      devs s' d = devs ex_generated d"
    by (elim conjE)
  then have sub: "devs s' 2 = devs ex_generated 2"
    by (simp add: ex_generated_objects)
  from after have q1: "calls s' = calls ex_generated"
    by (elim conjE)
  from after have q2: "stdout s' = stdout ex_generated"
    by (elim conjE)
  have "add_cells_try ex_env 0 ''Dev'' ex_generated =
     Inr (set_cell 3 ((Cell ''M2'' [''m2''])\<lparr>cell_path := Some ''/w/Dev''\<rparr>)
           (set_cell 1 ((Cell ''M1'' [''m1''])\<lparr>cell_path := Some ''/w/Dev''\<rparr>) ex_generated))"
    using t by (simp add: add_cells_try_def ex_generated_objects g)
  with ok have "dev_cell (devs s' 1) = Some ((Cell ''M1'' [''m1''])\<lparr>cell_path := Some ''/w/Dev''\<rparr>)"
    "dev_cell (devs s' 3) = Some ((Cell ''M2'' [''m2''])\<lparr>cell_path := Some ''/w/Dev''\<rparr>)"
    by (auto simp: set_cell_def)
  with t ret sub q1 q2 show ?thesis by blast
qed

subsection \<open>Failures of the cell binder\<close>

lemma ex_none_heal:
  "instantiate_circuit ex_env 0 None ''Dev''
     (ex_state\<lparr>stdout := stdout ex_state @ not_found_lines ''Dev''\<rparr>) =
   Inl (AttributeError,
        ex_state\<lparr>dirs := {''/w/Dev''},
                 stdout := not_found_lines ''Dev'' @ [''Diagnostic:  instantiating devices.'']\<rparr>)"
  by (simp add: instantiate_circuit_def clear_mag_files_def instantiate_devices_def
        ex_env_def ex_state_def os_path_exists_def os_path_join_def os_makedirs_def store_def)

lemma ex_broken_heal:
  "instantiate_circuit ex_env 0 (Some broken_mag) ''Dev''
     (ex_state\<lparr>stdout := stdout ex_state @ not_found_lines ''Dev''\<rparr>) =
   Inl (CollaboratorError ''BrokenPipeError'',
        ex_state\<lparr>dirs := {''/w/Dev''}, tool_cwd := ''/w/Dev'',
                 stdout := not_found_lines ''Dev'' @ [''Diagnostic:  instantiating devices.''],
                 calls := [Magic_command (Str ''cd /w/Dev''),
                           Magic_command (Str ''foreach fname [glob *.mag] {file delete $fname}''),
                           Gen_devices, Magic_command (Lines [''gen''])]\<rparr>)"
  by (simp add: instantiate_circuit_def clear_mag_files_def instantiate_devices_def
        magic_command_def broken_mag_def Let_def
        ex_env_def ex_state_def os_path_exists_def os_path_join_def os_makedirs_def store_def
        cong del: if_weak_cong)

text \<open>Claim C9, as amended.  An exception of the lookups other than \<^verbatim>\<open>FileNotFoundError\<close>
  makes \<^verbatim>\<open>add_cells\<close> print its failure line and exit with status 1, whatever was bound
  before.  An exception raised while healing, after a lookup failed with
  \<^verbatim>\<open>FileNotFoundError\<close>, leaves \<^verbatim>\<open>add_cells\<close> as it is: it is raised in the handler, where no
  clause catches it, so the failure line is not printed and \<^verbatim>\<open>sys.exit\<close> is not called.
  Whenever \<^verbatim>\<open>add_cells\<close> ends, it either returns the state of a round in which every lookup
  succeeded, or exits with status 1 after printing the failure line of a round whose lookups
  failed otherwise than with \<^verbatim>\<open>FileNotFoundError\<close>, or ends with the exception of a heal
  that followed a \<^verbatim>\<open>FileNotFoundError\<close>: there is no return with part of the lookups
  failed.  (The recursion is taken as unbounded, as in the definition of \<^verbatim>\<open>add_cells\<close>.)\<close>

theorem add_cells_failure_exits:
  "(\<forall>e s1. add_cells_try E circ path s = Inl (e, s1) \<longrightarrow> e \<noteq> FileNotFoundError \<longrightarrow>
        add_cells E circ mag path s =
          Some (Inl (SystemExit 1, s1\<lparr>stdout := stdout s1 @ [failed_line E circ]\<rparr>)))
   \<and> (\<forall>s1 err. add_cells_try E circ path s = Inl (FileNotFoundError, s1) \<longrightarrow>
        instantiate_circuit E circ mag path (s1\<lparr>stdout := stdout s1 @ not_found_lines path\<rparr>)
          = Inl err \<longrightarrow>
        add_cells E circ mag path s = Some (Inl err))
   \<and> (\<forall>r. add_cells E circ mag path s = Some r \<longrightarrow>
        (case r of
           Inr s' \<Rightarrow> (\<exists>s0. add_cells_try E circ path s0 = Inr s')
         | Inl (e, s') \<Rightarrow>
             (\<exists>s0 e0 s1. add_cells_try E circ path s0 = Inl (e0, s1) \<and> e0 \<noteq> FileNotFoundError
                 \<and> e = SystemExit 1 \<and> s' = s1\<lparr>stdout := stdout s1 @ [failed_line E circ]\<rparr>)
             \<or> (\<exists>s0 s1. add_cells_try E circ path s0 = Inl (FileNotFoundError, s1)
                  \<and> instantiate_circuit E circ mag path
                        (s1\<lparr>stdout := stdout s1 @ not_found_lines path\<rparr>) = Inl (e, s'))))"
proof (intro conjI allI impI)
  fix e s1
  assume "add_cells_try E circ path s = Inl (e, s1)" "e \<noteq> FileNotFoundError"
  then show "add_cells E circ mag path s =
          Some (Inl (SystemExit 1, s1\<lparr>stdout := stdout s1 @ [failed_line E circ]\<rparr>))"
    by (rule add_cells_fatal)
next
  fix s1 err
  assume "add_cells_try E circ path s = Inl (FileNotFoundError, s1)"
    "instantiate_circuit E circ mag path (s1\<lparr>stdout := stdout s1 @ not_found_lines path\<rparr>)
       = Inl err"
  then show "add_cells E circ mag path s = Some (Inl err)"
    by (rule add_cells_heal_fails)
next
  fix r
  assume "add_cells E circ mag path s = Some r"
  then show "case r of
           Inr s' \<Rightarrow> (\<exists>s0. add_cells_try E circ path s0 = Inr s')
         | Inl (e, s') \<Rightarrow>
             (\<exists>s0 e0 s1. add_cells_try E circ path s0 = Inl (e0, s1) \<and> e0 \<noteq> FileNotFoundError
                 \<and> e = SystemExit 1 \<and> s' = s1\<lparr>stdout := stdout s1 @ [failed_line E circ]\<rparr>)
             \<or> (\<exists>s0 s1. add_cells_try E circ path s0 = Inl (FileNotFoundError, s1)
                  \<and> instantiate_circuit E circ mag path
                        (s1\<lparr>stdout := stdout s1 @ not_found_lines path\<rparr>) = Inl (e, s'))"
    by (rule add_cells_results)
qed

text \<open>The theorem at the example.  A directory stands where the file of \<^verbatim>\<open>M1\<close> should be:
  the parser fails, and the run exits with status 1 after the failure line.  The file is
  missing and the session of the tool is broken: the failure of the tool ends the run, and
  the failure line is not printed.  Both files are there: the run returns the state of a
  round of lookups that succeeded.\<close>

theorem add_cells_failure_exits_witness:
  "add_cells ex_env 0 (Some ex_mag) ''Dev'' (ex_state\<lparr>dirs := {''/w/Dev/M1.mag''}\<rparr>) =
     Some (Inl (SystemExit 1,
       ex_state\<lparr>dirs := {''/w/Dev/M1.mag''}, stdout := [''Adding cells to top failed!'']\<rparr>))
   \<and> add_cells ex_env 0 (Some broken_mag) ''Dev'' ex_state =
     Some (Inl (CollaboratorError ''BrokenPipeError'',
        ex_state\<lparr>dirs := {''/w/Dev''}, tool_cwd := ''/w/Dev'',
                 stdout := not_found_lines ''Dev'' @ [''Diagnostic:  instantiating devices.''],
                 calls := [Magic_command (Str ''cd /w/Dev''),
                           Magic_command (Str ''foreach fname [glob *.mag] {file delete $fname}''),
                           Gen_devices, Magic_command (Lines [''gen''])]\<rparr>))
   \<and> (\<exists>s' s0. add_cells ex_env 0 (Some ex_mag) ''Dev'' ex_generated = Some (Inr s')
          \<and> add_cells_try ex_env 0 ''Dev'' s0 = Inr s')"
proof -
  let ?s = "ex_state\<lparr>dirs := {''/w/Dev/M1.mag''}\<rparr>"
  have "add_cells_try ex_env 0 ''Dev'' ?s = Inl (IsADirectoryError, ?s)"
    by (simp add: add_cells_try_def ex_env_def ex_state_def generate_cell_def
          os_path_exists_def os_path_join_def)
  with add_cells_failure_exits [of ex_env 0 "''Dev''" ?s "Some ex_mag"]
  have "add_cells ex_env 0 (Some ex_mag) ''Dev'' ?s =
          Some (Inl (SystemExit 1, ?s\<lparr>stdout := stdout ?s @ [failed_line ex_env 0]\<rparr>))"
    by blast
  then have a: "add_cells ex_env 0 (Some ex_mag) ''Dev'' ?s =
     Some (Inl (SystemExit 1,
       ex_state\<lparr>dirs := {''/w/Dev/M1.mag''}, stdout := [''Adding cells to top failed!'']\<rparr>))"
    by (simp add: failed_line_def ex_env_def ex_state_def)
  have r: "add_cells_try ex_env 0 ''Dev'' ex_state = Inl (FileNotFoundError, ex_state)"
    by (rule ex_try_fails) (simp_all add: ex_state_def)
  from add_cells_failure_exits [of ex_env 0 "''Dev''" ex_state "Some broken_mag"] r ex_broken_heal
  have b: "add_cells ex_env 0 (Some broken_mag) ''Dev'' ex_state =
     Some (Inl (CollaboratorError ''BrokenPipeError'',
        ex_state\<lparr>dirs := {''/w/Dev''}, tool_cwd := ''/w/Dev'',
                 stdout := not_found_lines ''Dev'' @ [''Diagnostic:  instantiating devices.''],
                 calls := [Magic_command (Str ''cd /w/Dev''),
                           Magic_command (Str ''foreach fname [glob *.mag] {file delete $fname}''),
                           Gen_devices, Magic_command (Lines [''gen''])]\<rparr>))"
    by blast
  from ex_try_succeeds [of ex_generated] obtain s' where
    ok: "add_cells_try ex_env 0 ''Dev'' ex_generated = Inr s'"
    by (auto simp: ex_generated_def ex_state_def)
  then have ret: "add_cells ex_env 0 (Some ex_mag) ''Dev'' ex_generated = Some (Inr s')"
    by (rule add_cells_success)
  with add_cells_failure_exits [of ex_env 0 "''Dev''" ex_generated "Some ex_mag"]
  have "case (Inr s' :: (error \<times> state) + state) of
           Inr s' \<Rightarrow> (\<exists>s0. add_cells_try ex_env 0 ''Dev'' s0 = Inr s')
         | Inl (e, s') \<Rightarrow>
             (\<exists>s0 e0 s1. add_cells_try ex_env 0 ''Dev'' s0 = Inl (e0, s1) \<and> e0 \<noteq> FileNotFoundError
                 \<and> e = SystemExit 1 \<and> s' = s1\<lparr>stdout := stdout s1 @ [failed_line ex_env 0]\<rparr>)
             \<or> (\<exists>s0 s1. add_cells_try ex_env 0 ''Dev'' s0 = Inl (FileNotFoundError, s1)
                  \<and> instantiate_circuit ex_env 0 (Some ex_mag) ''Dev''
                        (s1\<lparr>stdout := stdout s1 @ not_found_lines ''Dev''\<rparr>) = Inl (e, s'))"
    by blast
  then have c: "\<exists>s0. add_cells_try ex_env 0 ''Dev'' s0 = Inr s'" by simp
  from a b ret c show ?thesis by blast
qed

text \<open>Claim C9 as stated fails: not every failure other than the healed one ends in the
  report and the exit.  At the example the file of \<^verbatim>\<open>M1\<close> is missing, so the handler heals.
  Without a tool object the instantiator raises \<^verbatim>\<open>AttributeError\<close>, and with a broken session
  the tool raises its own error: each leaves \<^verbatim>\<open>add_cells\<close> as the exception itself, not as
  \<^verbatim>\<open>SystemExit\<close>, and the failure line was never printed.\<close>

theorem add_cells_heal_failure_counterexample:
  "(\<exists>s'. add_cells ex_env 0 None ''Dev'' ex_state = Some (Inl (AttributeError, s'))
        \<and> stdout s' = not_found_lines ''Dev'' @ [''Diagnostic:  instantiating devices.'']
        \<and> failed_line ex_env 0 \<notin> set (stdout s'))
   \<and> (\<exists>s'. add_cells ex_env 0 (Some broken_mag) ''Dev'' ex_state =
              Some (Inl (CollaboratorError ''BrokenPipeError'', s'))
        \<and> stdout s' = not_found_lines ''Dev'' @ [''Diagnostic:  instantiating devices.'']
        \<and> failed_line ex_env 0 \<notin> set (stdout s'))
   \<and> AttributeError \<noteq> SystemExit 1 \<and> CollaboratorError ''BrokenPipeError'' \<noteq> SystemExit 1"
proof -
  have r: "add_cells_try ex_env 0 ''Dev'' ex_state = Inl (FileNotFoundError, ex_state)"
    by (rule ex_try_fails) (simp_all add: ex_state_def)
  have n: "failed_line ex_env 0 \<notin>
             set (not_found_lines ''Dev'' @ [''Diagnostic:  instantiating devices.''])"
    by (simp add: failed_line_def not_found_lines_def ex_env_def)
  have a: "add_cells ex_env 0 None ''Dev'' ex_state =
     Some (Inl (AttributeError,
        ex_state\<lparr>dirs := {''/w/Dev''},
                 stdout := not_found_lines ''Dev'' @ [''Diagnostic:  instantiating devices.'']\<rparr>))"
    by (rule add_cells_heal_fails [OF r ex_none_heal])
  have b: "add_cells ex_env 0 (Some broken_mag) ''Dev'' ex_state =
     Some (Inl (CollaboratorError ''BrokenPipeError'',
        ex_state\<lparr>dirs := {''/w/Dev''}, tool_cwd := ''/w/Dev'',
                 stdout := not_found_lines ''Dev'' @ [''Diagnostic:  instantiating devices.''],
                 calls := [Magic_command (Str ''cd /w/Dev''),
                           Magic_command (Str ''foreach fname [glob *.mag] {file delete $fname}''),
                           Gen_devices, Magic_command (Lines [''gen''])]\<rparr>))"
    by (rule add_cells_heal_fails [OF r ex_broken_heal])
  show ?thesis
    unfolding a b using n by simp
qed

subsection \<open>Normalizing twice\<close>

text \<open>Claim C10.  On a cell that is already normalized (center at the origin, rotation
  zero, the bounding box of the child cells aligned at the origin) the three steps change
  nothing: the cell and the positions of its child cells are as before.  Every cell is
  normalized after the three steps, so applying them twice gives what applying them once
  gives.  The steps are the ones the \<^verbatim>\<open>SubCircuit\<close> branch applies to the macro cell of the
  copy.\<close>

theorem normalize_idempotent:
  "(normalized c \<longrightarrow> normalize c = c)
   \<and> normalized (normalize c)
   \<and> normalize (normalize c) = normalize c
   \<and> (\<forall>s circ cc sd. normalized_copy s circ = Inr (cc, sd) \<longrightarrow>
         (\<exists>mc. dev_cell (devs s sd) = Some mc
             \<and> dev_cell (snd (fst cc) sd) = Some (normalize mc)))"
proof -
  have k: "\<exists>mc. dev_cell (devs s sd) = Some mc
             \<and> dev_cell (snd (fst cc) sd) = Some (normalize mc)"
    if "normalized_copy s circ = Inr (cc, sd)" for s circ cc sd
    using normalized_copy_Inr [OF that] by (auto simp: normalize_def Let_def)
  have a: "normalize c = c" if n: "normalized c" for c
  proof -
    from n have c0: "center c = (0, 0)" and r0: "rotation c = 0" and b: "bounds_aligned c"
      by (simp_all add: normalized_def)
    have 1: "move_center (0, 0) c = c"
      using c0 by (simp add: move_center_def translate_zero)
    have 2: "rotate_center (- rotation c) c = c"
      using r0 by (simp add: rotate_center_def rotate_about_zero)
    have 3: "move_cells_to_bound c = c"
    proof (cases "cells c")
      case Nil
      then show ?thesis by (simp add: move_cells_to_bound_def)
    next
      case (Cons p ps)
      with b show ?thesis
        by (simp add: move_cells_to_bound_def bounds_aligned_def)
    qed
    show ?thesis by (simp add: normalize_def Let_def 1 2 3)
  qed
  have b: "normalized (normalize c)" for c
  proof -
    have "center (normalize c) = (0, 0)" "rotation (normalize c) = 0"
      by (simp_all add: normalize_def Let_def move_cells_to_bound_def rotate_center_def
            move_center_def split: list.splits)
    moreover have "bounds_aligned (normalize c)"
      by (simp add: normalize_def Let_def move_cells_to_bound_aligned)
    ultimately show ?thesis by (simp add: normalized_def)
  qed
  from a b k show ?thesis by blast
qed

text \<open>The theorem at a normalized cell with two child cells, and the steps at the macro
  cell of the example.\<close>

theorem normalize_idempotent_witness:
  "normalized (ex_macro_cell\<lparr>center := (0, 0), rotation := 0, cells := [(0, 3), (2, 0)]\<rparr>)
   \<and> normalize (ex_macro_cell\<lparr>center := (0, 0), rotation := 0, cells := [(0, 3), (2, 0)]\<rparr>) =
       ex_macro_cell\<lparr>center := (0, 0), rotation := 0, cells := [(0, 3), (2, 0)]\<rparr>
   \<and> normalize ex_macro_cell =
       ex_macro_cell\<lparr>center := (0, 0), rotation := 0, cells := [(0, 0)]\<rparr>"
proof -
  let ?c = "ex_macro_cell\<lparr>center := (0, 0), rotation := 0, cells := [(0, 3), (2, 0)]\<rparr>"
  have n: "normalized ?c"
    by (simp add: normalized_def bounds_aligned_def)
  with normalize_idempotent [of ?c] have "normalize ?c = ?c" by blast
  moreover have "normalize ex_macro_cell =
       ex_macro_cell\<lparr>center := (0, 0), rotation := 0, cells := [(0, 0)]\<rparr>"
    by (simp add: normalize_def Let_def ex_macro_cell_def move_center_def rotate_center_def
          rotate_about_def move_cells_to_bound_def)
  ultimately show ?thesis using n by blast
qed

end
